theory Spec2Isabelle
  imports Complex_Main "HOL-Library.Finite_Map" "HOL-Library.Sublist" "HOL-Library.Log_Nat"
begin

section \<open>Incremental contact discovery: data model\<close>

text \<open>
  Identifiers and authentication tokens are Python \<^verbatim>\<open>bytes\<close>: lists of bytes.
  A Python \<^verbatim>\<open>dict\<close> is a finite map; \<^verbatim>\<open>d.get(k)\<close> is \<open>fmlookup d k\<close>,
  \<^verbatim>\<open>d[k] = v\<close> is \<open>fmupd k v d\<close>, \<^verbatim>\<open>del d[k]\<close> is \<open>fmdrop k d\<close>,
  \<^verbatim>\<open>k in d\<close> is \<open>k |\<in>| fmdom d\<close> and \<^verbatim>\<open>len(d)\<close> is \<open>fcard (fmdom d)\<close>.
  Python's \<^verbatim>\<open>float\<close> is an IEEE double: every operation rounds its exact result
  to the nearest double, ties to even. Every reading of the system clock is a parameter
  of the function that reads it.
\<close>

type_synonym bytes = string

definition len_dict :: "('k, 'v) fmap \<Rightarrow> int" where
  "len_dict d = int (fcard (fmdom d))"

subsection \<open>errors.py and the result codes of Messages\_pb2.py\<close>

datatype Result =
  SUCCESS | AUTHENTICATION_INVALID | RATE_LIMIT_EXCEEDED | REQUEST_DATA_MISSING | REQUEST_DATA_INVALID

text \<open>The four subclasses of \<^verbatim>\<open>ICDError\<close>; each constructor fixes the result code.\<close>

datatype ICDError = AuthenticationError | RateLimitError | MissingDataError | InvalidDataError

fun error_result :: "ICDError \<Rightarrow> Result" where
  "error_result AuthenticationError = AUTHENTICATION_INVALID"
| "error_result RateLimitError = RATE_LIMIT_EXCEEDED"
| "error_result MissingDataError = REQUEST_DATA_MISSING"
| "error_result InvalidDataError = REQUEST_DATA_INVALID"

text \<open>
  What a function of the program can raise: one of the service's own errors, or one of
  Python's arithmetic errors (\<^verbatim>\<open>ZeroDivisionError\<close> from a float division,
  \<^verbatim>\<open>OverflowError\<close> and \<^verbatim>\<open>ValueError\<close> from a conversion between \<^verbatim>\<open>int\<close> and
  \<^verbatim>\<open>float\<close>).
\<close>

datatype exn = ICD ICDError | ZeroDivisionError | OverflowError | ValueError

subsection \<open>Python floats\<close>

text \<open>
  A float is a finite double, given by the rational it denotes, an infinity or a NaN.
  The sign of a zero is not kept: no operation of the program can tell the two zeros
  apart (a division by either raises).
\<close>

datatype pyfloat = Fin rat | PInf | NInf | NaN

text \<open>Rounding to the nearest integer, ties to the even one.\<close>

definition round_even :: "rat \<Rightarrow> int" where
  "round_even x =
     (let f = \<lfloor>x\<rfloor>; d = x - of_int f
      in if d < 1 / 2 then f else if 1 / 2 < d then f + 1 else if even f then f else f + 1)"

text \<open>The binary exponent of a positive rational \<open>x\<close>: \<open>2 powi e \<le> x < 2 powi (e + 1)\<close>.\<close>

definition ilog2 :: "rat \<Rightarrow> int" where
  "ilog2 x =
     (case quotient_of x of
        (p, q) \<Rightarrow> (let d = bitlen p - bitlen q in if 2 powi d \<le> x then d else d - 1))"

text \<open>
  Rounding to 53 significant bits with the exponent bounded below by \<open>-1022\<close> (so that
  small values round on the subnormal grid) and not bounded above; \<open>rnd\<close> then turns a
  result of magnitude \<open>2 powi 1024\<close> or more into an infinity.
\<close>

definition round_unbounded :: "rat \<Rightarrow> rat" where
  "round_unbounded x =
     (if x = 0 then 0
      else
        (let e = max (ilog2 \<bar>x\<bar>) (- 1022);
             u = 2 powi (e - 52)
         in of_int (round_even (x / u)) * u))"

definition rnd :: "rat \<Rightarrow> pyfloat" where
  "rnd x =
     (let y = round_unbounded x
      in if 2 powi 1024 \<le> \<bar>y\<bar> then (if 0 < x then PInf else NInf) else Fin y)"

fun fneg :: "pyfloat \<Rightarrow> pyfloat" where
  "fneg (Fin a) = Fin (- a)"
| "fneg PInf = NInf"
| "fneg NInf = PInf"
| "fneg NaN = NaN"

fun fadd :: "pyfloat \<Rightarrow> pyfloat \<Rightarrow> pyfloat" where
  "fadd NaN _ = NaN"
| "fadd _ NaN = NaN"
| "fadd (Fin a) (Fin b) = rnd (a + b)"
| "fadd PInf NInf = NaN"
| "fadd NInf PInf = NaN"
| "fadd PInf _ = PInf"
| "fadd _ PInf = PInf"
| "fadd NInf _ = NInf"
| "fadd _ NInf = NInf"

definition fsub :: "pyfloat \<Rightarrow> pyfloat \<Rightarrow> pyfloat" where
  "fsub a b = fadd a (fneg b)"

fun fmul :: "pyfloat \<Rightarrow> pyfloat \<Rightarrow> pyfloat" where
  "fmul NaN _ = NaN"
| "fmul _ NaN = NaN"
| "fmul (Fin a) (Fin b) = rnd (a * b)"
| "fmul (Fin a) PInf = (if a = 0 then NaN else if 0 < a then PInf else NInf)"
| "fmul (Fin a) NInf = (if a = 0 then NaN else if 0 < a then NInf else PInf)"
| "fmul PInf (Fin b) = (if b = 0 then NaN else if 0 < b then PInf else NInf)"
| "fmul NInf (Fin b) = (if b = 0 then NaN else if 0 < b then NInf else PInf)"
| "fmul PInf PInf = PInf"
| "fmul PInf NInf = NInf"
| "fmul NInf PInf = NInf"
| "fmul NInf NInf = PInf"

text \<open>The quotient of two floats when the divisor is not zero.\<close>

fun fdiv :: "pyfloat \<Rightarrow> pyfloat \<Rightarrow> pyfloat" where
  "fdiv NaN _ = NaN"
| "fdiv _ NaN = NaN"
| "fdiv (Fin a) (Fin b) = rnd (a / b)"
| "fdiv (Fin a) _ = Fin 0"
| "fdiv PInf (Fin b) = (if 0 < b then PInf else NInf)"
| "fdiv NInf (Fin b) = (if 0 < b then NInf else PInf)"
| "fdiv _ _ = NaN"

text \<open>Python's \<^verbatim>\<open>a / b\<close> on floats raises when the divisor is zero.\<close>

definition truediv :: "pyfloat \<Rightarrow> pyfloat \<Rightarrow> exn + pyfloat" where
  "truediv a b = (if b = Fin 0 then Inl ZeroDivisionError else Inr (fdiv a b))"

text \<open>Python's \<^verbatim>\<open>a < b\<close>, \<^verbatim>\<open>a > b\<close> and \<^verbatim>\<open>a <= b\<close> on floats: false when a NaN is compared.\<close>

fun flt :: "pyfloat \<Rightarrow> pyfloat \<Rightarrow> bool" where
  "flt NaN _ = False"
| "flt _ NaN = False"
| "flt (Fin a) (Fin b) = (a < b)"
| "flt PInf _ = False"
| "flt _ NInf = False"
| "flt _ _ = True"

definition fgt :: "pyfloat \<Rightarrow> pyfloat \<Rightarrow> bool" where
  "fgt a b = flt b a"

fun fle :: "pyfloat \<Rightarrow> pyfloat \<Rightarrow> bool" where
  "fle NaN _ = False"
| "fle _ NaN = False"
| "fle NInf _ = True"
| "fle _ PInf = True"
| "fle (Fin a) (Fin b) = (a \<le> b)"
| "fle _ _ = False"

text \<open>
  \<^verbatim>\<open>float(n)\<close> of an \<^verbatim>\<open>int\<close> rounds to the nearest double and raises
  \<^verbatim>\<open>OverflowError\<close> when there is none; \<^verbatim>\<open>n / b\<close> with an \<^verbatim>\<open>int\<close> \<open>n\<close> and a
  float \<open>b\<close> converts \<open>n\<close> first. \<^verbatim>\<open>math.ceil\<close> of a float is an \<^verbatim>\<open>int\<close>; it raises
  on an infinity and on a NaN.
\<close>

definition py_float :: "int \<Rightarrow> exn + pyfloat" where
  "py_float n = (case rnd (of_int n) of Fin y \<Rightarrow> Inr (Fin y) | _ \<Rightarrow> Inl OverflowError)"

definition int_truediv :: "int \<Rightarrow> pyfloat \<Rightarrow> exn + pyfloat" where
  "int_truediv n b = (case py_float n of Inl e \<Rightarrow> Inl e | Inr a \<Rightarrow> truediv a b)"

fun py_ceil :: "pyfloat \<Rightarrow> exn + int" where
  "py_ceil (Fin a) = Inr \<lceil>a\<rceil>"
| "py_ceil NaN = Inl ValueError"
| "py_ceil _ = Inl OverflowError"

subsection \<open>userSet.py: UserSet\<close>

record UserSet =
  s_users :: "(bytes, bytes) fmap"

definition UserSet_init :: UserSet where
  "UserSet_init = \<lparr>s_users = fmempty\<rparr>"

definition UserSet_userCount :: "UserSet \<Rightarrow> int" where
  "UserSet_userCount s = len_dict (s_users s)"

definition UserSet_userExists :: "UserSet \<Rightarrow> bytes \<Rightarrow> bool" where
  "UserSet_userExists s user = (fmlookup (s_users s) user \<noteq> None)"

definition UserSet_addUser :: "UserSet \<Rightarrow> bytes \<Rightarrow> bytes \<Rightarrow> UserSet" where
  "UserSet_addUser s user auth_token = s\<lparr>s_users := fmupd user auth_token (s_users s)\<rparr>"

definition UserSet_removeUser :: "UserSet \<Rightarrow> bytes \<Rightarrow> UserSet" where
  "UserSet_removeUser s user =
     (if user |\<notin>| fmdom (s_users s) then s
      else s\<lparr>s_users := fmdrop user (s_users s)\<rparr>)"

definition UserSet_isValidUser :: "UserSet \<Rightarrow> bytes \<Rightarrow> bytes \<Rightarrow> bool" where
  "UserSet_isValidUser s user auth_token =
     (case fmlookup (s_users s) user of
        None \<Rightarrow> False
      | Some storedToken \<Rightarrow> storedToken = auth_token)"

definition UserSet_containedUsers :: "UserSet \<Rightarrow> bytes list \<Rightarrow> bytes list" where
  "UserSet_containedUsers s users = [x \<leftarrow> users. x |\<in>| fmdom (s_users s)]"

definition UserSet_clear :: "UserSet \<Rightarrow> UserSet" where
  "UserSet_clear s = s\<lparr>s_users := fmempty\<rparr>"

subsection \<open>userSet.py: ExpiringUserSet\<close>

record ExpiringUserSet =
  e_users :: "(bytes, int) fmap"
  expiration_time :: int

definition ExpiringUserSet_init :: "int \<Rightarrow> ExpiringUserSet" where
  "ExpiringUserSet_init expiration = \<lparr>e_users = fmempty, expiration_time = expiration\<rparr>"

definition ExpiringUserSet_userCount :: "ExpiringUserSet \<Rightarrow> int" where
  "ExpiringUserSet_userCount s = len_dict (e_users s)"

definition ExpiringUserSet_userExists :: "ExpiringUserSet \<Rightarrow> bytes \<Rightarrow> bool" where
  "ExpiringUserSet_userExists s user = (fmlookup (e_users s) user \<noteq> None)"

definition ExpiringUserSet_addUser :: "ExpiringUserSet \<Rightarrow> bytes \<Rightarrow> int \<Rightarrow> ExpiringUserSet" where
  "ExpiringUserSet_addUser s user time =
     (let removal_time = time + expiration_time s
      in s\<lparr>e_users := fmupd user removal_time (e_users s)\<rparr>)"

definition ExpiringUserSet_removeUser :: "ExpiringUserSet \<Rightarrow> bytes \<Rightarrow> ExpiringUserSet" where
  "ExpiringUserSet_removeUser s user =
     (if user |\<notin>| fmdom (e_users s) then s
      else s\<lparr>e_users := fmdrop user (e_users s)\<rparr>)"

definition ExpiringUserSet_containedUsers :: "ExpiringUserSet \<Rightarrow> bytes list \<Rightarrow> bytes list" where
  "ExpiringUserSet_containedUsers s users = [x \<leftarrow> users. x |\<in>| fmdom (e_users s)]"

text \<open>
  \<^verbatim>\<open>update\<close> copies the entries with \<^verbatim>\<open>v > time\<close> into a fresh dict, counts the
  difference of the two sizes and replaces the dict. It returns the count and the new set.
\<close>

definition ExpiringUserSet_update :: "ExpiringUserSet \<Rightarrow> int \<Rightarrow> int \<times> ExpiringUserSet" where
  "ExpiringUserSet_update s time =
     (let filtered = fmfilter (\<lambda>k. case fmlookup (e_users s) k of
                                      None \<Rightarrow> False | Some v \<Rightarrow> v > time) (e_users s);
          removed = len_dict (e_users s) - len_dict filtered
      in (removed, s\<lparr>e_users := filtered\<rparr>))"

definition ExpiringUserSet_clear :: "ExpiringUserSet \<Rightarrow> ExpiringUserSet" where
  "ExpiringUserSet_clear s = s\<lparr>e_users := fmempty\<rparr>"

subsection \<open>bucket.py: Bucket\<close>

record Bucket =
  b_users :: "(bytes, pyfloat) fmap"
  leak_rate :: pyfloat
  max_count :: int
  drain_period :: pyfloat

text \<open>
  The constructor converts both arguments to floats and divides, which raises when the
  drain period is zero.
\<close>

definition Bucket_init :: "int \<Rightarrow> int \<Rightarrow> exn + Bucket" where
  "Bucket_init maxc period =
     (case py_float maxc of
        Inl e \<Rightarrow> Inl e
      | Inr c \<Rightarrow>
          (case py_float period of
             Inl e \<Rightarrow> Inl e
           | Inr p \<Rightarrow>
               (case truediv c p of
                  Inl e \<Rightarrow> Inl e
                | Inr rate \<Rightarrow> Inr \<lparr>b_users = fmempty, leak_rate = rate, max_count = maxc,
                                   drain_period = p\<rparr>)))"

definition Bucket_userCount :: "Bucket \<Rightarrow> int" where
  "Bucket_userCount b = len_dict (b_users b)"

definition Bucket_currentSizeForUser :: "Bucket \<Rightarrow> bytes \<Rightarrow> pyfloat \<Rightarrow> exn + int" where
  "Bucket_currentSizeForUser b user time =
     (case fmlookup (b_users b) user of
        None \<Rightarrow> Inr 0
      | Some timestamp \<Rightarrow>
          if flt timestamp time then Inr (max_count b)
          else py_ceil (fmul (fsub timestamp time) (leak_rate b)))"

text \<open>
  \<^verbatim>\<open>userCanSyncAmount\<close> returns what the call returns or raises, and the bucket after
  the call. Each of the three paths behind the size check divides by the leak rate.
\<close>

definition Bucket_userCanSyncAmount ::
  "Bucket \<Rightarrow> bytes \<Rightarrow> int \<Rightarrow> pyfloat \<Rightarrow> (exn + bool) \<times> Bucket" where
  "Bucket_userCanSyncAmount b user amount time =
     (if amount > max_count b then (Inr False, b)
      else case fmlookup (b_users b) user of
        None \<Rightarrow>
          (case int_truediv amount (leak_rate b) of
             Inl e \<Rightarrow> (Inl e, b)
           | Inr q \<Rightarrow> (Inr True, b\<lparr>b_users := fmupd user (fadd time q) (b_users b)\<rparr>))
      | Some timestamp \<Rightarrow>
          if flt timestamp time then
            (case int_truediv amount (leak_rate b) of
               Inl e \<Rightarrow> (Inl e, b)
             | Inr q \<Rightarrow> (Inr True, b\<lparr>b_users := fmupd user (fadd time q) (b_users b)\<rparr>))
          else
            (case int_truediv amount (leak_rate b) of
               Inl e \<Rightarrow> (Inl e, b)
             | Inr q \<Rightarrow>
                 (let timestamp' = fadd timestamp q
                  in if fgt timestamp' (fadd time (drain_period b)) then (Inr False, b)
                     else (Inr True, b\<lparr>b_users := fmupd user timestamp' (b_users b)\<rparr>))))"



subsection \<open>Messages\_pb2.py: the two envelopes\<close>

record Request =
  user :: bytes
  auth_token :: bytes
  identifiers :: "bytes list"

record Response =
  result :: Result
  added_users :: "bytes list"
  removed_users :: "bytes list"

section \<open>app.py\<close>

subsection \<open>Configuration\<close>

definition s2_period :: int where
  "s2_period = 86400"

definition s2_delta :: int where
  "s2_delta = 864000"

definition max_contacts :: int where
  "max_contacts = 20000"

subsection \<open>The module's variables\<close>

record app_state =
  s1 :: UserSet
  s2_added :: ExpiringUserSet
  s2_removed :: ExpiringUserSet
  s1_buckets :: Bucket
  s2_buckets :: Bucket

text \<open>
  The state the module builds when it is loaded; a constructor that raises leaves no state.
\<close>

definition initial_state :: "exn + app_state" where
  "initial_state =
     (case Bucket_init max_contacts s2_delta of
        Inl e \<Rightarrow> Inl e
      | Inr b1 \<Rightarrow>
          (case Bucket_init max_contacts s2_period of
             Inl e \<Rightarrow> Inl e
           | Inr b2 \<Rightarrow>
               Inr \<lparr>s1 = UserSet_init,
                    s2_added = ExpiringUserSet_init s2_delta,
                    s2_removed = ExpiringUserSet_init s2_delta,
                    s1_buckets = b1, s2_buckets = b2\<rparr>))"

subsection \<open>Responses\<close>

text \<open>
  A handler's reply is modelled as the \<^verbatim>\<open>Response\<close> message it builds; turning it into
  bytes and into an HTTP response is the work of the protobuf and Flask libraries.
\<close>

definition makeErrorResponse :: "ICDError \<Rightarrow> Response" where
  "makeErrorResponse error = \<lparr>result = error_result error, added_users = [], removed_users = []\<rparr>"

definition makeResponse :: "bytes list \<Rightarrow> bytes list \<Rightarrow> Response" where
  "makeResponse added removed = \<lparr>result = SUCCESS, added_users = added, removed_users = removed\<rparr>"

subsection \<open>Authentication\<close>

text \<open>
  \<^verbatim>\<open>request.get_data()\<close> is the parameter \<open>data\<close>: \<open>None\<close> is Python's \<^verbatim>\<open>None\<close>,
  \<open>Some []\<close> the empty byte string. The protobuf decoder \<^verbatim>\<open>ParseFromString\<close> is the
  parameter \<open>parse\<close>, which gives \<open>None\<close> where the decoder raises.
\<close>

definition getDataFromRequest ::
  "(bytes \<Rightarrow> Request option) \<Rightarrow> bytes option \<Rightarrow> exn + bytes \<times> bytes \<times> bytes list" where
  "getDataFromRequest parse data =
     (case data of
        None \<Rightarrow> Inl (ICD MissingDataError)
      | Some d \<Rightarrow>
          (case parse d of
             None \<Rightarrow> Inl (ICD InvalidDataError)
           | Some received_request \<Rightarrow>
               Inr (user received_request, auth_token received_request,
                    identifiers received_request)))"

definition checkAuthentication ::
  "app_state \<Rightarrow> (bytes \<Rightarrow> Request option) \<Rightarrow> bytes option \<Rightarrow> exn + bytes \<times> bytes list" where
  "checkAuthentication st parse data =
     (case getDataFromRequest parse data of
        Inl e \<Rightarrow> Inl e
      | Inr (usr, token, ids) \<Rightarrow>
          if \<not> UserSet_isValidUser (s1 st) usr token then Inl (ICD AuthenticationError)
          else Inr (usr, ids))"

definition checkAuthenticationAndExtractIdentifiers ::
  "app_state \<Rightarrow> (bytes \<Rightarrow> Request option) \<Rightarrow> bytes option \<Rightarrow> exn + bytes \<times> bytes list" where
  "checkAuthenticationAndExtractIdentifiers st parse data =
     (case checkAuthentication st parse data of
        Inl e \<Rightarrow> Inl e
      | Inr (usr, ids) \<Rightarrow>
          if int (length ids) > max_contacts then Inl (ICD RateLimitError)
          else Inr (usr, ids))"

subsection \<open>User management\<close>

text \<open>
  \<^verbatim>\<open>time()\<close> returns a finite float; a clock reading is the rational it denotes.
  \<^verbatim>\<open>_time()\<close> is \<^verbatim>\<open>int(time())\<close>: the reading truncated towards zero.
\<close>

definition time_int :: "rat \<Rightarrow> int" where
  "time_int t = (if t \<ge> 0 then \<lfloor>t\<rfloor> else \<lceil>t\<rceil>)"

definition addNewUser :: "app_state \<Rightarrow> bytes \<Rightarrow> bytes \<Rightarrow> rat \<Rightarrow> app_state" where
  "addNewUser st usr token clock =
     st\<lparr>s1 := UserSet_addUser (s1 st) usr token,
        s2_added := ExpiringUserSet_addUser (s2_added st) usr (time_int clock),
        s2_removed := ExpiringUserSet_removeUser (s2_removed st) usr\<rparr>"

definition removeUser :: "app_state \<Rightarrow> bytes \<Rightarrow> rat \<Rightarrow> app_state" where
  "removeUser st usr clock =
     st\<lparr>s1 := UserSet_removeUser (s1 st) usr,
        s2_added := ExpiringUserSet_removeUser (s2_added st) usr,
        s2_removed := ExpiringUserSet_addUser (s2_removed st) usr (time_int clock)\<rparr>"

subsection \<open>Set updates\<close>

definition updateUserSets :: "app_state \<Rightarrow> rat \<Rightarrow> app_state" where
  "updateUserSets st clock =
     (let currentTime = time_int clock;
          (removedFromAdded, added') = ExpiringUserSet_update (s2_added st) currentTime;
          (removedFromRemoved, removed') = ExpiringUserSet_update (s2_removed st) currentTime
      in st\<lparr>s2_added := added', s2_removed := removed'\<rparr>)"

subsection \<open>Request entry points\<close>

text \<open>
  A callback takes the state and returns what it returns or raises, with the state it
  leaves. \<^verbatim>\<open>_catchRequestErrors\<close> sweeps the two delta sets, runs the callback and turns
  an \<^verbatim>\<open>ICDError\<close> into its error response; any other exception goes through.
\<close>

definition catchRequestErrors ::
  "(app_state \<Rightarrow> (exn + Response) \<times> app_state) \<Rightarrow> app_state \<Rightarrow> rat \<Rightarrow>
   (exn + Response) \<times> app_state" where
  "catchRequestErrors callback st clock =
     (case callback (updateUserSets st clock) of
        (Inl (ICD e), st') \<Rightarrow> (Inr (makeErrorResponse e), st')
      | (Inl other, st') \<Rightarrow> (Inl other, st')
      | (Inr response, st') \<Rightarrow> (Inr response, st'))"

definition fullDiscoveryWithErrors ::
  "(bytes \<Rightarrow> Request option) \<Rightarrow> bytes option \<Rightarrow> rat \<Rightarrow> app_state \<Rightarrow>
   (exn + Response) \<times> app_state" where
  "fullDiscoveryWithErrors parse data clock st =
     (case checkAuthenticationAndExtractIdentifiers st parse data of
        Inl e \<Rightarrow> (Inl e, st)
      | Inr (usr, ids) \<Rightarrow>
          if length ids = 0 then (Inr (makeResponse [] []), st)
          else
            (case Bucket_userCanSyncAmount (s1_buckets st) usr (int (length ids)) (Fin clock) of
               (Inl e, b') \<Rightarrow> (Inl e, st\<lparr>s1_buckets := b'\<rparr>)
             | (Inr allowed, b') \<Rightarrow>
                 if \<not> allowed then (Inl (ICD RateLimitError), st\<lparr>s1_buckets := b'\<rparr>)
                 else
                   (let found = UserSet_containedUsers (s1 st) ids
                    in (Inr (makeResponse found []), st\<lparr>s1_buckets := b'\<rparr>))))"

definition fullDiscovery ::
  "app_state \<Rightarrow> (bytes \<Rightarrow> Request option) \<Rightarrow> bytes option \<Rightarrow> rat \<Rightarrow> rat \<Rightarrow>
   (exn + Response) \<times> app_state" where
  "fullDiscovery st parse data clock0 clock1 =
     catchRequestErrors (fullDiscoveryWithErrors parse data clock1) st clock0"

definition incrementalDiscoveryWithErrors ::
  "(bytes \<Rightarrow> Request option) \<Rightarrow> bytes option \<Rightarrow> rat \<Rightarrow> app_state \<Rightarrow>
   (exn + Response) \<times> app_state" where
  "incrementalDiscoveryWithErrors parse data clock st =
     (case checkAuthenticationAndExtractIdentifiers st parse data of
        Inl e \<Rightarrow> (Inl e, st)
      | Inr (usr, ids) \<Rightarrow>
          if length ids = 0 then (Inr (makeResponse [] []), st)
          else
            (case Bucket_userCanSyncAmount (s2_buckets st) usr (int (length ids)) (Fin clock) of
               (Inl e, b') \<Rightarrow> (Inl e, st\<lparr>s2_buckets := b'\<rparr>)
             | (Inr allowed, b') \<Rightarrow>
                 if \<not> allowed then (Inl (ICD RateLimitError), st\<lparr>s2_buckets := b'\<rparr>)
                 else
                   (let addedUsers = ExpiringUserSet_containedUsers (s2_added st) ids;
                        removedUsers = ExpiringUserSet_containedUsers (s2_removed st) ids
                    in (Inr (makeResponse addedUsers removedUsers), st\<lparr>s2_buckets := b'\<rparr>))))"

definition incrementalDiscovery ::
  "app_state \<Rightarrow> (bytes \<Rightarrow> Request option) \<Rightarrow> bytes option \<Rightarrow> rat \<Rightarrow> rat \<Rightarrow>
   (exn + Response) \<times> app_state" where
  "incrementalDiscovery st parse data clock0 clock1 =
     catchRequestErrors (incrementalDiscoveryWithErrors parse data clock1) st clock0"

definition registerUserWithErrors ::
  "(bytes \<Rightarrow> Request option) \<Rightarrow> bytes option \<Rightarrow> rat \<Rightarrow> app_state \<Rightarrow>
   (exn + Response) \<times> app_state" where
  "registerUserWithErrors parse data clock st =
     (case getDataFromRequest parse data of
        Inl e \<Rightarrow> (Inl e, st)
      | Inr (usr, token, _) \<Rightarrow> (Inr (makeResponse [] []), addNewUser st usr token clock))"

definition registerUser ::
  "app_state \<Rightarrow> (bytes \<Rightarrow> Request option) \<Rightarrow> bytes option \<Rightarrow> rat \<Rightarrow> rat \<Rightarrow>
   (exn + Response) \<times> app_state" where
  "registerUser st parse data clock0 clock1 =
     catchRequestErrors (registerUserWithErrors parse data clock1) st clock0"

definition deleteUserWithErrors ::
  "(bytes \<Rightarrow> Request option) \<Rightarrow> bytes option \<Rightarrow> rat \<Rightarrow> app_state \<Rightarrow>
   (exn + Response) \<times> app_state" where
  "deleteUserWithErrors parse data clock st =
     (case checkAuthentication st parse data of
        Inl e \<Rightarrow> (Inl e, st)
      | Inr (usr, _) \<Rightarrow> (Inr (makeResponse [] []), removeUser st usr clock))"

definition deleteUser ::
  "app_state \<Rightarrow> (bytes \<Rightarrow> Request option) \<Rightarrow> bytes option \<Rightarrow> rat \<Rightarrow> rat \<Rightarrow>
   (exn + Response) \<times> app_state" where
  "deleteUser st parse data clock0 clock1 =
     catchRequestErrors (deleteUserWithErrors parse data clock1) st clock0"

section \<open>Bucket parameters and sequences of bucket operations\<close>

text \<open>
  A bucket with a positive finite leak rate and a finite drain period in which the
  largest amount the bucket admits drains within the period: \<^verbatim>\<open>max_count / leak_rate\<close>,
  as the code computes it, is at most \<^verbatim>\<open>drain_period\<close>. No method changes these three
  fields.
\<close>

definition bucket_sound :: "Bucket \<Rightarrow> bool" where
  "bucket_sound b \<longleftrightarrow>
     (case leak_rate b of Fin r \<Rightarrow> 0 < r | _ \<Rightarrow> False) \<and>
     (case drain_period b of Fin p \<Rightarrow> True | _ \<Rightarrow> False) \<and>
     (case int_truediv (max_count b) (leak_rate b) of
        Inl e \<Rightarrow> False
      | Inr q \<Rightarrow> fle q (drain_period b))"






section \<open>The configured service\<close>

text \<open>
  The parameters of the module's containers as \<open>initial_state\<close> sets them: each bucket
  is, up to its entries, the bucket its constructor call builds. No handler assigns to
  them.
\<close>

definition configured :: "app_state \<Rightarrow> bool" where
  "configured st \<longleftrightarrow>
     expiration_time (s2_added st) = s2_delta \<and>
     expiration_time (s2_removed st) = s2_delta \<and>
     Bucket_init max_contacts s2_delta = Inr ((s1_buckets st)\<lparr>b_users := fmempty\<rparr>) \<and>
     Bucket_init max_contacts s2_period = Inr ((s2_buckets st)\<lparr>b_users := fmempty\<rparr>)"

section \<open>Example states\<close>

text \<open>
  The expiring set of the component test \<^verbatim>\<open>test_exp_set_update_set\<close>: expiration time
  86400, one user added at 1234 and one at 12345.
\<close>

definition ex_set :: ExpiringUserSet where
  "ex_set = ExpiringUserSet_addUser
              (ExpiringUserSet_addUser (ExpiringUserSet_init 86400) ''u1'' 1234) ''u2'' 12345"

text \<open>
  The bucket of the component tests, \<^verbatim>\<open>Bucket(20000, drain_period=86400)\<close>, empty and
  after one user has synchronised 20000 contacts at time 1234. Its leak rate is the double
  nearest to \<open>20000 / 86400\<close>.
\<close>

definition ex_bucket0 :: Bucket where
  "ex_bucket0 = \<lparr>b_users = fmempty, leak_rate = Fin (8339999309945363 / 2 ^ 55),
                 max_count = 20000, drain_period = Fin 86400\<rparr>"

definition ex_bucket :: Bucket where
  "ex_bucket = ex_bucket0\<lparr>b_users := fmupd ''u'' (Fin 87634) fmempty\<rparr>"





text \<open>
  A decoder that reads every body as the same request, and the requests of the examples.
\<close>

definition ex_parse :: "Request \<Rightarrow> bytes \<Rightarrow> Request option" where
  "ex_parse req d = Some req"

definition ex_state :: app_state where
  "ex_state = \<lparr>s1 = \<lparr>s_users = fmupd ''alice'' ''secret'' fmempty\<rparr>,
                s2_added = \<lparr>e_users = fmupd ''alice'' 864100 fmempty, expiration_time = 864000\<rparr>,
                s2_removed = \<lparr>e_users = fmupd ''bob'' 50 fmempty, expiration_time = 864000\<rparr>,
                s1_buckets = \<lparr>b_users = fmempty, leak_rate = Fin (3335999723978145 / 2 ^ 57),
                              max_count = 20000, drain_period = Fin 864000\<rparr>,
                s2_buckets = \<lparr>b_users = fmempty, leak_rate = Fin (8339999309945363 / 2 ^ 55),
                              max_count = 20000, drain_period = Fin 86400\<rparr>\<rparr>"

definition ex_request :: Request where
  "ex_request = \<lparr>user = ''alice'', auth_token = ''secret'', identifiers = [''alice'', ''carol'']\<rparr>"

definition ex_request_empty :: Request where
  "ex_request_empty = \<lparr>user = ''alice'', auth_token = ''secret'', identifiers = []\<rparr>"

section \<open>Verification\<close>

subsection \<open>Dictionaries\<close>

lemma len_dict_filter_diff:
  "len_dict m - len_dict (fmfilter P m) = int (card {k. k |\<in>| fmdom m \<and> \<not> P k})"
proof -
  have fin: "finite (fset (fmdom m))" by simp
  have sub: "fset (ffilter P (fmdom m)) \<subseteq> fset (fmdom m)" by auto
  have "card (fset (fmdom m) - fset (ffilter P (fmdom m))) =
        card (fset (fmdom m)) - card (fset (ffilter P (fmdom m)))"
    by (rule card_Diff_subset[OF finite_subset[OF sub fin] sub])
  moreover have "fset (fmdom m) - fset (ffilter P (fmdom m)) = {k. k |\<in>| fmdom m \<and> \<not> P k}"
    by auto
  moreover have "card (fset (ffilter P (fmdom m))) \<le> card (fset (fmdom m))"
    using fin sub by (rule card_mono)
  ultimately show ?thesis
    by (simp add: len_dict_def fcard.rep_eq)
qed

subsection \<open>ExpiringUserSet: the sweep\<close>

text \<open>
  Claim C7. For every expiring set and every time \<open>T\<close>, \<^verbatim>\<open>update(T)\<close> removes exactly
  the entries whose deadline is at most \<open>T\<close> (every other entry keeps its deadline),
  returns the number of entries it removed, and leaves only entries with a deadline
  greater than \<open>T\<close>. The expiration time of the set is not touched.
\<close>

theorem update_sweeps:
  "ExpiringUserSet_update s T = (removed, s') \<Longrightarrow>
     (\<forall>k. fmlookup (e_users s') k =
            (case fmlookup (e_users s) k of
               None \<Rightarrow> None
             | Some d \<Rightarrow> if d \<le> T then None else Some d)) \<and>
     removed = int (card {k. \<exists>d. fmlookup (e_users s) k = Some d \<and> d \<le> T}) \<and>
     (\<forall>k d. fmlookup (e_users s') k = Some d \<longrightarrow> d > T) \<and>
     expiration_time s' = expiration_time s"
proof -
  assume u: "ExpiringUserSet_update s T = (removed, s')"
  let ?P = "\<lambda>k. case fmlookup (e_users s) k of None \<Rightarrow> False | Some v \<Rightarrow> v > T"
  from u have s': "s' = s\<lparr>e_users := fmfilter ?P (e_users s)\<rparr>"
    and r: "removed = len_dict (e_users s) - len_dict (fmfilter ?P (e_users s))"
    by (auto simp: ExpiringUserSet_update_def Let_def)
  have look: "\<And>k. fmlookup (e_users s') k =
            (case fmlookup (e_users s) k of
               None \<Rightarrow> None
             | Some d \<Rightarrow> if d \<le> T then None else Some d)"
    by (auto simp: s' split: option.splits)
  have "{k. k |\<in>| fmdom (e_users s) \<and> \<not> ?P k} =
        {k. \<exists>d. fmlookup (e_users s) k = Some d \<and> d \<le> T}"
    by (auto simp: fmlookup_dom_iff split: option.splits)
  then have cnt: "removed = int (card {k. \<exists>d. fmlookup (e_users s) k = Some d \<and> d \<le> T})"
    using r len_dict_filter_diff[of "e_users s" ?P] by simp
  have rem: "\<And>k d. fmlookup (e_users s') k = Some d \<Longrightarrow> d > T"
    by (auto simp: look split: option.splits if_splits)
  have exp: "expiration_time s' = expiration_time s"
    by (simp add: s')
  show ?thesis using look cnt rem exp by blast
qed

theorem update_sweeps_witness:
  "fst (ExpiringUserSet_update ex_set 87635) = 1 \<and>
   fmlookup (e_users (snd (ExpiringUserSet_update ex_set 87635))) ''u1'' = None \<and>
   fmlookup (e_users (snd (ExpiringUserSet_update ex_set 87635))) ''u2'' = Some 98745 \<and>
   (98745::int) > 87635"
proof -
  obtain r s' where u: "ExpiringUserSet_update ex_set 87635 = (r, s')"
    by (cases "ExpiringUserSet_update ex_set 87635")
  have e: "e_users ex_set = fmupd ''u2'' 98745 (fmupd ''u1'' 87634 fmempty)"
    by (simp add: ex_set_def ExpiringUserSet_addUser_def ExpiringUserSet_init_def)
  have s: "{k. \<exists>d. fmlookup (e_users ex_set) k = Some d \<and> d \<le> 87635} = {''u1''}"
    by (auto simp: e split: if_splits)
  have l1: "fmlookup (e_users ex_set) ''u1'' = Some 87634"
    and l2: "fmlookup (e_users ex_set) ''u2'' = Some 98745"
    by (simp_all add: e)
  from update_sweeps[OF u] show ?thesis
    by (simp add: u s l1 l2)
qed

subsection \<open>UserSet and ExpiringUserSet: intersection\<close>

lemma count_list_filter_if:
  "count_list (filter P xs) x = (if P x then count_list xs x else 0)"
  by (induction xs) auto

text \<open>
  Claim C8. For every input list, \<^verbatim>\<open>containedUsers\<close> of a user set and of an expiring
  set returns the input elements whose key is in the dict and no others, in the input's
  order (the result is a subsequence of the input) and with the input's multiplicities.
  The expiring set looks at keys only: an entry whose deadline is not after some time
  \<open>T\<close>, and that no sweep has removed, is reported.
\<close>

theorem containedUsers_exact:
  "subseq (UserSet_containedUsers s ids) ids \<and>
   (\<forall>x. count_list (UserSet_containedUsers s ids) x =
          (if fmlookup (s_users s) x \<noteq> None then count_list ids x else 0)) \<and>
   subseq (ExpiringUserSet_containedUsers e ids) ids \<and>
   (\<forall>x. count_list (ExpiringUserSet_containedUsers e ids) x =
          (if fmlookup (e_users e) x \<noteq> None then count_list ids x else 0)) \<and>
   (\<forall>x d T. fmlookup (e_users e) x = Some d \<and> d \<le> T \<and> x \<in> set ids \<longrightarrow>
          x \<in> set (ExpiringUserSet_containedUsers e ids))"
proof -
  have dom_s: "\<And>x. x |\<in>| fmdom (s_users s) \<longleftrightarrow> fmlookup (s_users s) x \<noteq> None"
    by (simp add: fmlookup_dom_iff)
  have dom_e: "\<And>x. x |\<in>| fmdom (e_users e) \<longleftrightarrow> fmlookup (e_users e) x \<noteq> None"
    by (simp add: fmlookup_dom_iff)
  have a: "subseq (UserSet_containedUsers s ids) ids"
    by (simp add: UserSet_containedUsers_def)
  have b: "\<And>x. count_list (UserSet_containedUsers s ids) x =
          (if fmlookup (s_users s) x \<noteq> None then count_list ids x else 0)"
    unfolding UserSet_containedUsers_def count_list_filter_if dom_s by simp
  have c: "subseq (ExpiringUserSet_containedUsers e ids) ids"
    by (simp add: ExpiringUserSet_containedUsers_def)
  have d: "\<And>x. count_list (ExpiringUserSet_containedUsers e ids) x =
          (if fmlookup (e_users e) x \<noteq> None then count_list ids x else 0)"
    unfolding ExpiringUserSet_containedUsers_def count_list_filter_if dom_e by simp
  have f: "\<And>x d T. fmlookup (e_users e) x = Some d \<Longrightarrow> x \<in> set ids \<Longrightarrow>
          x \<in> set (ExpiringUserSet_containedUsers e ids)"
    by (simp add: ExpiringUserSet_containedUsers_def dom_e)
  show ?thesis using a b c d f by blast
qed

theorem containedUsers_exact_witness:
  "ExpiringUserSet_containedUsers ex_set [''u2'', ''u0'', ''u1'', ''u2''] = [''u2'', ''u1'', ''u2''] \<and>
   fmlookup (e_users ex_set) ''u1'' = Some 87634 \<and> (87634::int) \<le> 87635 \<and>
   ''u1'' \<in> set (ExpiringUserSet_containedUsers ex_set [''u2'', ''u0'', ''u1'', ''u2''])"
proof -
  have e: "e_users ex_set = fmupd ''u2'' 98745 (fmupd ''u1'' 87634 fmempty)"
    by (simp add: ex_set_def ExpiringUserSet_addUser_def ExpiringUserSet_init_def)
  have l1: "fmlookup (e_users ex_set) ''u1'' = Some 87634"
    by (simp add: e)
  have r: "ExpiringUserSet_containedUsers ex_set [''u2'', ''u0'', ''u1'', ''u2''] = [''u2'', ''u1'', ''u2'']"
    by (simp add: ExpiringUserSet_containedUsers_def e)
  have "fmlookup (e_users ex_set) ''u1'' = Some 87634 \<and> (87634::int) \<le> 87635 \<and>
        ''u1'' \<in> set [''u2'', ''u0'', ''u1'', ''u2''] \<longrightarrow>
        ''u1'' \<in> set (ExpiringUserSet_containedUsers ex_set [''u2'', ''u0'', ''u1'', ''u2''])"
    using containedUsers_exact[of UserSet_init "[''u2'', ''u0'', ''u1'', ''u2'']" ex_set]
    by blast
  then show ?thesis using l1 r by simp
qed

subsection \<open>Rounding\<close>

lemma bitlen_powi_bounds:
  fixes p :: int
  assumes "0 < p"
  shows "(2::rat) powi (bitlen p - 1) \<le> of_int p" "of_int p < (2::rat) powi (bitlen p)"
proof -
  have b: "1 \<le> bitlen p" using assms by (auto simp: bitlen_alt_def)
  from bitlen_bounds[OF assms]
  have lo: "2 ^ nat (bitlen p - 1) \<le> p" and hi: "p < 2 ^ nat (bitlen p)" by simp_all
  have "(of_int (2 ^ nat (bitlen p - 1)) :: rat) \<le> of_int p"
    using lo by (simp only: of_int_le_iff)
  then show "(2::rat) powi (bitlen p - 1) \<le> of_int p"
    using b by (simp add: power_int_def)
  have "(of_int p :: rat) < of_int (2 ^ nat (bitlen p))"
    using hi by (simp only: of_int_less_iff)
  then show "of_int p < (2::rat) powi (bitlen p)"
    using b by (simp add: power_int_def)
qed

lemma ilog2_bounds:
  assumes "0 < x"
  shows "2 powi (ilog2 x) \<le> x" "x < 2 powi (ilog2 x + 1)"
proof -
  obtain p q where pq: "quotient_of x = (p, q)" by (cases "quotient_of x")
  have q: "0 < q" using pq by (rule quotient_of_denom_pos)
  have x: "x = of_int p / of_int q" using pq by (rule quotient_of_div)
  have p: "0 < p" using assms q unfolding x by (simp add: zero_less_divide_iff)
  let ?d = "bitlen p - bitlen q"
  note bp = bitlen_powi_bounds[OF p] and bq = bitlen_powi_bounds[OF q]
  have qpos: "(0::rat) < of_int q" using q by simp
  have "x * of_int q = of_int p" using qpos unfolding x by simp
  have lt: "x < 2 powi (?d + 1)"
  proof -
    have "of_int p < (2::rat) powi (bitlen p)" by (rule bp(2))
    also have "\<dots> = 2 powi (?d + 1) * 2 powi (bitlen q - 1)"
      by (simp flip: power_int_add)
    also have "\<dots> \<le> 2 powi (?d + 1) * of_int q"
      using bq(1) by (intro mult_left_mono) simp_all
    finally show ?thesis using qpos unfolding x by (simp add: pos_divide_less_eq)
  qed
  have gt: "2 powi (?d - 1) \<le> x"
  proof -
    have "2 powi (?d - 1) * of_int q \<le> 2 powi (?d - 1) * (2::rat) powi (bitlen q)"
      using bq(2) by (intro mult_left_mono) simp_all
    also have "\<dots> = 2 powi (bitlen p - 1)"
      by (simp flip: power_int_add)
    also have "\<dots> \<le> of_int p" by (rule bp(1))
    finally show ?thesis using qpos unfolding x by (simp add: pos_le_divide_eq)
  qed
  show "2 powi (ilog2 x) \<le> x" using gt by (simp add: ilog2_def pq Let_def)
  show "x < 2 powi (ilog2 x + 1)" using lt by (auto simp: ilog2_def pq Let_def not_le)
qed

lemma powi2_less_imp: "(2::rat) powi a < 2 powi b \<Longrightarrow> a < b"
  using power_int_increasing[of b a "2::rat"] by (cases "a < b") (auto simp: not_less)

lemma ilog2_unique:
  assumes "2 powi e \<le> x" "x < 2 powi (e + 1)"
  shows "ilog2 x = e"
proof -
  have pos: "0 < x" using assms(1) by (rule less_le_trans[rotated]) simp
  note b = ilog2_bounds[OF pos]
  have "(2::rat) powi e < 2 powi (ilog2 x + 1)" using assms(1) b(2) by simp
  then have 1: "e < ilog2 x + 1" by (rule powi2_less_imp)
  have "(2::rat) powi (ilog2 x) < 2 powi (e + 1)" using assms(2) b(1) by simp
  then have 2: "ilog2 x < e + 1" by (rule powi2_less_imp)
  from 1 2 show ?thesis by simp
qed


lemma round_even_of_int [simp]: "round_even (of_int n) = n"
  by (simp add: round_even_def)

lemma round_even_zero [simp]: "round_even 0 = 0"
  using round_even_of_int[of 0] by simp

lemma round_even_frac:
  fixes f :: int and d :: rat
  assumes "0 \<le> d" "d < 1"
  shows "round_even (of_int f + d) =
     (if d < 1 / 2 then f else if 1 / 2 < d then f + 1 else if even f then f else f + 1)"
proof -
  have "\<lfloor>of_int f + d\<rfloor> = f" using assms by (intro floor_unique) simp_all
  then show ?thesis by (simp add: round_even_def Let_def)
qed

lemma frac_decomp:
  fixes x :: rat
  obtains f :: int and d :: rat where "x = of_int f + d" "0 \<le> d" "d < 1" "f = \<lfloor>x\<rfloor>"
proof -
  have "x = of_int \<lfloor>x\<rfloor> + (x - of_int \<lfloor>x\<rfloor>)" by simp
  moreover have "0 \<le> x - of_int \<lfloor>x\<rfloor>" by simp
  moreover have "x - of_int \<lfloor>x\<rfloor> < 1" by linarith
  ultimately show ?thesis using that by blast
qed

lemma round_even_bounds:
  "x - 1 / 2 \<le> of_int (round_even x)" "of_int (round_even x) \<le> x + 1 / 2"
proof -
  obtain f d where x: "x = of_int f + d" and d: "0 \<le> d" "d < 1" by (rule frac_decomp)
  show "x - 1 / 2 \<le> of_int (round_even x)"
    unfolding x round_even_frac[OF d] using d by auto
  show "of_int (round_even x) \<le> x + 1 / 2"
    unfolding x round_even_frac[OF d] using d by auto
qed

lemma round_even_near:
  assumes "\<bar>of_int m - x\<bar> < 1 / 2"
  shows "round_even x = m"
proof -
  note b = round_even_bounds[of x]
  have "\<bar>(of_int (round_even x) :: rat) - of_int m\<bar> < 1" using assms b by linarith
  then have "\<bar>(of_int (round_even x - m) :: rat)\<bar> < of_int 1" by simp
  then have "\<bar>round_even x - m\<bar> < 1" unfolding of_int_abs[symmetric] of_int_less_iff .
  then show ?thesis by simp
qed

lemma round_even_mono:
  assumes "x \<le> y"
  shows "round_even x \<le> round_even y"
proof -
  obtain f d where x: "x = of_int f + d" and d: "0 \<le> d" "d < 1" and f: "f = \<lfloor>x\<rfloor>"
    by (rule frac_decomp)
  obtain g c where y: "y = of_int g + c" and c: "0 \<le> c" "c < 1" and g: "g = \<lfloor>y\<rfloor>"
    by (rule frac_decomp)
  have fg: "f \<le> g" unfolding f g using assms by (rule floor_mono)
  show ?thesis
  proof (cases "f = g")
    case True
    then have "d \<le> c" using assms unfolding x y by simp
    then show ?thesis unfolding x y round_even_frac[OF d] round_even_frac[OF c] True
      by auto
  next
    case False
    then have "f + 1 \<le> g" using fg by simp
    moreover have "round_even x \<le> f + 1" unfolding x round_even_frac[OF d] by auto
    moreover have "g \<le> round_even y" unfolding y round_even_frac[OF c] by auto
    ultimately show ?thesis by linarith
  qed
qed



lemma powi_53: "2 powi 53 * (2::rat) powi (e - 52) = 2 powi (e + 1)"
proof -
  have a: "53 + (e - 52) = e + 1" by simp
  show ?thesis using power_int_add[of "2::rat" 53 "e - 52"] unfolding a by simp
qed

lemma powi_52: "2 powi 52 * (2::rat) powi (e - 52) = 2 powi e"
proof -
  have a: "52 + (e - 52) = e" by simp
  show ?thesis using power_int_add[of "2::rat" 52 "e - 52"] unfolding a by simp
qed


lemma round_unbounded_pos:
  assumes "0 < x"
  shows "round_unbounded x =
           of_int (round_even (x / 2 powi (max (ilog2 x) (- 1022) - 52))) *
           2 powi (max (ilog2 x) (- 1022) - 52)"
  using assms by (simp add: round_unbounded_def Let_def)

lemma round_unbounded_range:
  assumes x: "0 < x"
  shows "0 \<le> round_unbounded x"
    and "round_unbounded x \<le> 2 powi (max (ilog2 x) (- 1022) + 1)"
    and "- 1022 \<le> ilog2 x \<Longrightarrow> 2 powi (ilog2 x) \<le> round_unbounded x"
proof -
  define e where "e = max (ilog2 x) (- 1022)"
  define u :: rat where "u = 2 powi (e - 52)"
  have u: "0 < u" by (simp add: u_def)
  have ru: "round_unbounded x = of_int (round_even (x / u)) * u"
    using round_unbounded_pos[OF x] by (simp add: u_def e_def)
  have "0 \<le> x / u" using x u by simp
  then have "round_even (of_int 0) \<le> round_even (x / u)"
    by (intro round_even_mono) simp
  then have n0: "0 \<le> round_even (x / u)" by simp
  then show "0 \<le> round_unbounded x" using u by (simp add: ru)
  have "x < 2 powi (ilog2 x + 1)" by (rule ilog2_bounds(2)[OF x])
  also have "\<dots> \<le> 2 powi (e + 1)"
    by (intro power_int_increasing) (simp_all add: e_def)
  also have "\<dots> = 2 powi 53 * u" unfolding u_def by (rule powi_53[symmetric])
  finally have "x / u \<le> 2 powi 53" using u by (simp add: pos_divide_le_eq)
  then have "x / u \<le> of_int (2 ^ 53)" by simp
  then have "round_even (x / u) \<le> round_even (of_int (2 ^ 53))" by (rule round_even_mono)
  then have "round_even (x / u) \<le> 2 ^ 53" by (simp only: round_even_of_int)
  then have "(of_int (round_even (x / u)) :: rat) \<le> of_int (2 ^ 53)"
    by (simp only: of_int_le_iff)
  then have "of_int (round_even (x / u)) * u \<le> 2 powi 53 * u"
    using u by (intro mult_right_mono) simp_all
  also have "\<dots> = 2 powi (e + 1)" unfolding u_def by (rule powi_53)
  finally show "round_unbounded x \<le> 2 powi (max (ilog2 x) (- 1022) + 1)"
    by (simp add: ru e_def)
  show "2 powi (ilog2 x) \<le> round_unbounded x" if "- 1022 \<le> ilog2 x"
  proof -
    have e: "e = ilog2 x" using that by (simp add: e_def)
    have "2 powi 52 * u = 2 powi e" unfolding u_def by (rule powi_52)
    also have "\<dots> \<le> x" unfolding e by (rule ilog2_bounds(1)[OF x])
    finally have "of_int (2 ^ 52) \<le> x / u" using u by (simp add: pos_le_divide_eq)
    then have "round_even (of_int (2 ^ 52)) \<le> round_even (x / u)" by (rule round_even_mono)
    then have "2 ^ 52 \<le> round_even (x / u)" by (simp only: round_even_of_int)
    then have "(of_int (2 ^ 52) :: rat) \<le> of_int (round_even (x / u))"
      by (simp only: of_int_le_iff)
    then have "2 powi 52 * u \<le> of_int (round_even (x / u)) * u"
      using u by (intro mult_right_mono) simp_all
    moreover have "2 powi 52 * u = 2 powi (ilog2 x)"
      unfolding u_def e[symmetric] by (rule powi_52)
    ultimately show ?thesis by (simp add: ru)
  qed
qed




lemma round_unbounded_zero [simp]: "round_unbounded 0 = 0"
  by (simp add: round_unbounded_def)

lemma rnd_zero [simp]: "rnd 0 = Fin 0"
  by (simp add: rnd_def)

lemma rnd_not_NaN [simp]: "rnd x \<noteq> NaN"
  by (simp add: rnd_def Let_def)


lemma rnd_value:
  assumes "2 powi e \<le> x" "x < 2 powi (e + 1)" "- 1022 \<le> e" "e \<le> 1022"
    and "\<bar>of_int m - x / 2 powi (e - 52)\<bar> < 1 / 2"
  shows "rnd x = Fin (of_int m * 2 powi (e - 52))"
proof -
  have x: "0 < x" using assms(1) by (rule less_le_trans[rotated]) simp
  have e: "ilog2 x = e" using assms(1,2) by (rule ilog2_unique)
  have ru: "round_unbounded x = of_int m * 2 powi (e - 52)"
    using assms(3) round_even_near[OF assms(5)]
    by (simp add: round_unbounded_pos[OF x] e)
  have "round_unbounded x \<le> 2 powi (e + 1)"
    using round_unbounded_range(2)[OF x] assms(3) by (simp add: e)
  also have "\<dots> \<le> 2 powi 1023" using assms(4) by (intro power_int_increasing) simp_all
  also have "\<dots> < 2 powi 1024" by (intro power_int_strict_increasing) simp_all
  finally have "\<bar>round_unbounded x\<bar> < 2 powi 1024"
    using round_unbounded_range(1)[OF x] by simp
  then show ?thesis by (simp add: rnd_def Let_def ru)
qed

subsection \<open>Roundings of the examples\<close>

lemma rnd_fact_1: "rnd (25 / 108) = Fin (8339999309945363 / 36028797018963968)"
  using rnd_value[of "-3" "25 / 108" 8339999309945363] by simp

lemma rnd_fact_2: "rnd (20000) = Fin (20000)"
  using rnd_value[of "14" "20000" 5497558138880000] by simp

lemma rnd_fact_3: "rnd (86400) = Fin (86400)"
  using rnd_value[of "16" "86400" 5937362789990400] by simp

lemma rnd_fact_4: "rnd (720575940379279360000 / 8339999309945363) = Fin (86400)"
  using rnd_value[of "16" "720575940379279360000 / 8339999309945363" 5937362789990400] by simp

lemma rnd_fact_5: "rnd (87634) = Fin (87634)"
  using rnd_value[of "16" "87634" 6022162624282624] by simp

lemma rnd_fact_6: "rnd (5629499534213120025 / 281474976710656) = Fin (20000)"
  using rnd_value[of "14" "5629499534213120025 / 281474976710656" 5497558138880000] by simp

lemma rnd_fact_7: "rnd (86634) = Fin (86634)"
  using rnd_value[of "16" "86634" 5953443147546624] by simp

lemma rnd_fact_8: "rnd (361263750108903289071 / 18014398509481984) = Fin (5512447358839467 / 274877906944)"
  using rnd_value[of "14" "361263750108903289071 / 18014398509481984" 5512447358839467] by simp

lemma rnd_fact_9: "rnd (864000) = Fin (864000)"
  using rnd_value[of "19" "864000" 7421703487488000] by simp

lemma rnd_fact_10: "rnd (5 / 216) = Fin (3335999723978145 / 144115188075855872)"
  using rnd_value[of "-6" "5 / 216" 6671999447956290] by simp

lemma rnd_fact_11: "rnd (576460752303423488000 / 667199944795629) = Fin (864000)"
  using rnd_value[of "19" "576460752303423488000 / 667199944795629" 7421703487488000] by simp

lemma rnd_fact_12: "rnd (2) = Fin (2)"
  using rnd_value[of "1" "2" 4503599627370496] by simp

lemma rnd_fact_13: "rnd (288230376151711744 / 3335999723978145) = Fin (3039929748475085 / 35184372088832)"
  using rnd_value[of "6" "288230376151711744 / 3335999723978145" 6079859496950170] by simp

lemma rnd_fact_14: "rnd (3039929748475085 / 35184372088832) = Fin (3039929748475085 / 35184372088832)"
  using rnd_value[of "6" "3039929748475085 / 35184372088832" 6079859496950170] by simp

lemma rnd_fact_15: "rnd (19998) = Fin (19998)"
  using rnd_value[of "14" "19998" 5497008383066112] by simp

lemma rnd_fact_16: "rnd (960671843713655242752 / 1111999907992715) = Fin (1855240329284813 / 2147483648)"
  using rnd_value[of "19" "960671843713655242752 / 1111999907992715" 7420961317139252] by simp

lemma rnd_fact_17: "rnd (30399297484750851277 / 35184372088832) = Fin (7421703487488001 / 8589934592)"
  using rnd_value[of "19" "30399297484750851277 / 35184372088832" 7421703487488001] by simp

lemma rnd_fact_18: "rnd (11) = Fin (11)"
  using rnd_value[of "3" "11" 6192449487634432] by simp

lemma rnd_fact_19: "rnd (11 / 86400) = Fin (1174271902840307 / 9223372036854775808)"
  using rnd_value[of "-13" "11 / 86400" 4697087611361228] by simp

lemma rnd_fact_20: "rnd (1234) = Fin (1234)"
  using rnd_value[of "10" "1234" 5427189394702336] by simp

lemma rnd_fact_21: "rnd (101457092405402533888 / 1174271902840307) = Fin (5937362789990401 / 68719476736)"
  using rnd_value[of "16" "101457092405402533888 / 1174271902840307" 5937362789990401] by simp

lemma rnd_fact_22: "rnd (6022162624282625 / 68719476736) = Fin (6022162624282625 / 68719476736)"
  using rnd_value[of "16" "6022162624282625 / 68719476736" 6022162624282625] by simp

lemma rnd_fact_23: "rnd (1) = Fin (1)"
  using rnd_value[of "0" "1" 4503599627370496] by simp

lemma rnd_fact_24: "rnd (36028797018963968 / 8339999309945363) = Fin (607985949695017 / 140737488355328)"
  using rnd_value[of "2" "36028797018963968 / 8339999309945363" 4863887597560136] by simp

lemma rnd_fact_25: "rnd (12333997040480508969 / 140737488355328) = Fin (1505614873105531 / 17179869184)"
  using rnd_value[of "16" "12333997040480508969 / 140737488355328" 6022459492422124] by simp

lemma rnd_fact_26: "rnd (3112891665318188731597 / 36028797018963968) = Fin (2968684830969037 / 34359738368)"
  using rnd_value[of "16" "3112891665318188731597 / 36028797018963968" 5937369661938074] by simp

lemma rnd_fact_27: "rnd (3602879701896397 / 36028797018963968) = Fin (3602879701896397 / 36028797018963968)"
  using rnd_value[of "-4" "3602879701896397 / 36028797018963968" 7205759403792794] by simp

lemma rnd_fact_28: "rnd (6558366957358285 / 35184372088832) = Fin (6558366957358285 / 35184372088832)"
  using rnd_value[of "7" "6558366957358285 / 35184372088832" 6558366957358285] by simp

lemmas rnd_facts =
  rnd_fact_1
  rnd_fact_2
  rnd_fact_3
  rnd_fact_4
  rnd_fact_5
  rnd_fact_6
  rnd_fact_7
  rnd_fact_8
  rnd_fact_9
  rnd_fact_10
  rnd_fact_11
  rnd_fact_12
  rnd_fact_13
  rnd_fact_14
  rnd_fact_15
  rnd_fact_16
  rnd_fact_17
  rnd_fact_18
  rnd_fact_19
  rnd_fact_20
  rnd_fact_21
  rnd_fact_22
  rnd_fact_23
  rnd_fact_24
  rnd_fact_25
  rnd_fact_26
  rnd_fact_27
  rnd_fact_28


lemmas float_defs = py_float_def int_truediv_def truediv_def fsub_def fgt_def

subsection \<open>Comparisons and sums of floats\<close>

lemma flt_right_simps [simp]: "\<not> flt a NInf" "\<not> flt a NaN" "\<not> flt PInf a"
  by (cases a; simp)+

lemma fle_right_simps [simp]: "\<not> fle a NaN" "a \<noteq> NaN \<Longrightarrow> fle a PInf" "a \<noteq> NaN \<Longrightarrow> fle NInf a"
  by (cases a; simp)+







lemma rnd_Fin_eq: "rnd x = Fin y \<Longrightarrow> y = round_unbounded x"
  by (simp add: rnd_def Let_def split: if_splits)




subsection \<open>Conversions and quotients\<close>

lemma py_float_cases:
  obtains (ok) a where "py_float n = Inr (Fin a)" "a = round_unbounded (of_int n)"
  | (overflow) "py_float n = Inl OverflowError"
proof (cases "rnd (of_int n)")
  case (Fin y)
  then show ?thesis using ok rnd_Fin_eq[OF Fin] by (simp add: py_float_def)
qed (simp_all add: py_float_def overflow)

lemma int_truediv_exn:
  "int_truediv n b = Inl e \<Longrightarrow> e = ZeroDivisionError \<or> e = OverflowError"
  by (cases n rule: py_float_cases)
     (auto simp: int_truediv_def truediv_def split: if_splits)


subsection \<open>Bucket: frame of the admission\<close>

lemma admit_false_frame:
  "fst (Bucket_userCanSyncAmount b u k now) \<noteq> Inr True \<Longrightarrow>
   snd (Bucket_userCanSyncAmount b u k now) = b"
  by (auto simp: Bucket_userCanSyncAmount_def Let_def
           split: option.splits if_splits sum.splits)


lemma admit_never_raises_ICD:
  "fst (Bucket_userCanSyncAmount b u k t) \<noteq> Inl (ICD e)"
  using int_truediv_exn[of k "leak_rate b"]
  by (auto simp: Bucket_userCanSyncAmount_def Let_def
           split: option.splits if_splits sum.splits)

lemma admit_not_ICD:
  "Bucket_userCanSyncAmount b u k t \<noteq> (Inl (ICD e), b')"
  using admit_never_raises_ICD[of b u k t e] by auto




subsection \<open>Bucket: the level of a drained bucket\<close>

text \<open>
  Claim C1. The claim is that \<^verbatim>\<open>currentSizeForUser\<close> returns 0 when the stored
  timestamp is at most the time, and otherwise the ceiling of the remaining time times
  the leak rate, capped at the size. In the bucket of the component tests, after
  \<^verbatim>\<open>u\<close> has synchronised 20000 contacts at time 1234 (timestamp 87634), the function
  returns 20000 at time 1234 and 0 at time 87634, but one second later, when the bucket
  has drained, it returns the size 20000 and not 0; at time 1000, before the write, it
  returns 20055, more than the size.
\<close>

theorem currentSizeForUser_drained_bucket:
  "Bucket_init 20000 86400 = Inr ex_bucket0 \<and>
   Bucket_userCanSyncAmount ex_bucket0 ''u'' 20000 (Fin 1234) = (Inr True, ex_bucket) \<and>
   Bucket_currentSizeForUser ex_bucket ''u'' (Fin 1234) = Inr 20000 \<and>
   Bucket_currentSizeForUser ex_bucket ''u'' (Fin 87634) = Inr 0 \<and>
   Bucket_currentSizeForUser ex_bucket ''u'' (Fin 87635) = Inr 20000 \<and>
   Bucket_currentSizeForUser ex_bucket ''u'' (Fin 1000) = Inr 20055"
  by (simp add: Bucket_init_def py_float_def int_truediv_def truediv_def ex_bucket0_def
        ex_bucket_def Bucket_userCanSyncAmount_def Bucket_currentSizeForUser_def fsub_def
        rnd_facts ceiling_eq_iff)

subsection \<open>Bucket: the admission decision\<close>





subsection \<open>Bucket: the drain horizon\<close>


lemma bucket_sound_users [simp]: "bucket_sound (b\<lparr>b_users := m\<rparr>) = bucket_sound b"
  by (auto simp: bucket_sound_def split: sum.splits pyfloat.splits)









subsection \<open>Request handlers: decoding, authentication and the sweep\<close>

lemma getDataFromRequest_body:
  "getDataFromRequest parse (Some d) =
     (case parse d of
        None \<Rightarrow> Inl (ICD InvalidDataError)
      | Some req \<Rightarrow> Inr (user req, auth_token req, identifiers req))"
  by (simp add: getDataFromRequest_def)

lemma checkAuthentication_decoded:
  "parse d = Some req \<Longrightarrow>
   checkAuthentication st parse (Some d) =
     (if \<not> UserSet_isValidUser (s1 st) (user req) (auth_token req)
      then Inl (ICD AuthenticationError)
      else Inr (user req, identifiers req))"
  by (simp add: checkAuthentication_def getDataFromRequest_body)

lemma checkAuthenticationAndExtractIdentifiers_decoded:
  "parse d = Some req \<Longrightarrow>
   checkAuthenticationAndExtractIdentifiers st parse (Some d) =
     (if \<not> UserSet_isValidUser (s1 st) (user req) (auth_token req)
      then Inl (ICD AuthenticationError)
      else if int (length (identifiers req)) > max_contacts then Inl (ICD RateLimitError)
      else Inr (user req, identifiers req))"
  by (simp add: checkAuthenticationAndExtractIdentifiers_def checkAuthentication_decoded)

lemma checkAuthentication_undecoded:
  "checkAuthentication st parse None = Inl (ICD MissingDataError)"
  "parse d = None \<Longrightarrow> checkAuthentication st parse (Some d) = Inl (ICD InvalidDataError)"
  by (simp_all add: checkAuthentication_def getDataFromRequest_def)

lemma checkAuthenticationAndExtractIdentifiers_undecoded:
  "checkAuthenticationAndExtractIdentifiers st parse None = Inl (ICD MissingDataError)"
  "parse d = None \<Longrightarrow>
   checkAuthenticationAndExtractIdentifiers st parse (Some d) = Inl (ICD InvalidDataError)"
  by (simp_all add: checkAuthenticationAndExtractIdentifiers_def checkAuthentication_undecoded)

lemma updateUserSets_frame:
  "s1 (updateUserSets st t) = s1 st"
  "s1_buckets (updateUserSets st t) = s1_buckets st"
  "s2_buckets (updateUserSets st t) = s2_buckets st"
  "s2_added (updateUserSets st t) = snd (ExpiringUserSet_update (s2_added st) (time_int t))"
  "s2_removed (updateUserSets st t) = snd (ExpiringUserSet_update (s2_removed st) (time_int t))"
  by (simp_all add: updateUserSets_def Let_def case_prod_beta)

text \<open>The outcomes of the two discovery callbacks, case by case.\<close>

lemma fullDiscoveryWithErrors_cases:
  "fullDiscoveryWithErrors parse data t st =
     (case data of
        None \<Rightarrow> (Inl (ICD MissingDataError), st)
      | Some d \<Rightarrow>
         (case parse d of
            None \<Rightarrow> (Inl (ICD InvalidDataError), st)
          | Some req \<Rightarrow>
              if \<not> UserSet_isValidUser (s1 st) (user req) (auth_token req)
                then (Inl (ICD AuthenticationError), st)
              else if int (length (identifiers req)) > max_contacts
                then (Inl (ICD RateLimitError), st)
              else if identifiers req = [] then (Inr (makeResponse [] []), st)
              else
                (case Bucket_userCanSyncAmount (s1_buckets st) (user req)
                        (int (length (identifiers req))) (Fin t) of
                   (Inl e, b') \<Rightarrow> (Inl e, st\<lparr>s1_buckets := b'\<rparr>)
                 | (Inr False, b') \<Rightarrow> (Inl (ICD RateLimitError), st\<lparr>s1_buckets := b'\<rparr>)
                 | (Inr True, b') \<Rightarrow>
                     (Inr (makeResponse (UserSet_containedUsers (s1 st) (identifiers req)) []),
                      st\<lparr>s1_buckets := b'\<rparr>))))"
proof (cases data)
  case None
  then show ?thesis
    by (simp add: fullDiscoveryWithErrors_def checkAuthenticationAndExtractIdentifiers_undecoded)
next
  case (Some d)
  show ?thesis
  proof (cases "parse d")
    case None
    then show ?thesis using Some
      by (simp add: fullDiscoveryWithErrors_def
            checkAuthenticationAndExtractIdentifiers_undecoded)
  next
    case req: (Some req)
    note dec = checkAuthenticationAndExtractIdentifiers_decoded[of parse d req st, OF req]
    show ?thesis unfolding Some fullDiscoveryWithErrors_def dec
      using req by (simp add: Let_def split: prod.splits sum.splits bool.splits)
  qed
qed

lemma incrementalDiscoveryWithErrors_cases:
  "incrementalDiscoveryWithErrors parse data t st =
     (case data of
        None \<Rightarrow> (Inl (ICD MissingDataError), st)
      | Some d \<Rightarrow>
         (case parse d of
            None \<Rightarrow> (Inl (ICD InvalidDataError), st)
          | Some req \<Rightarrow>
              if \<not> UserSet_isValidUser (s1 st) (user req) (auth_token req)
                then (Inl (ICD AuthenticationError), st)
              else if int (length (identifiers req)) > max_contacts
                then (Inl (ICD RateLimitError), st)
              else if identifiers req = [] then (Inr (makeResponse [] []), st)
              else
                (case Bucket_userCanSyncAmount (s2_buckets st) (user req)
                        (int (length (identifiers req))) (Fin t) of
                   (Inl e, b') \<Rightarrow> (Inl e, st\<lparr>s2_buckets := b'\<rparr>)
                 | (Inr False, b') \<Rightarrow> (Inl (ICD RateLimitError), st\<lparr>s2_buckets := b'\<rparr>)
                 | (Inr True, b') \<Rightarrow>
                     (Inr (makeResponse
                            (ExpiringUserSet_containedUsers (s2_added st) (identifiers req))
                            (ExpiringUserSet_containedUsers (s2_removed st) (identifiers req))),
                      st\<lparr>s2_buckets := b'\<rparr>))))"
proof (cases data)
  case None
  then show ?thesis
    by (simp add: incrementalDiscoveryWithErrors_def
          checkAuthenticationAndExtractIdentifiers_undecoded)
next
  case (Some d)
  show ?thesis
  proof (cases "parse d")
    case None
    then show ?thesis using Some
      by (simp add: incrementalDiscoveryWithErrors_def
            checkAuthenticationAndExtractIdentifiers_undecoded)
  next
    case req: (Some req)
    note dec = checkAuthenticationAndExtractIdentifiers_decoded[of parse d req st, OF req]
    show ?thesis unfolding Some incrementalDiscoveryWithErrors_def dec
      using req by (simp add: Let_def split: prod.splits sum.splits bool.splits)
  qed
qed

subsection \<open>Request handlers: the empty body\<close>

lemma catchRequestErrors_result:
  "catchRequestErrors callback st t =
     (case callback (updateUserSets st t) of
        (Inl (ICD e), st') \<Rightarrow> (Inr (makeErrorResponse e), st')
      | (Inl other, st') \<Rightarrow> (Inl other, st')
      | (Inr response, st') \<Rightarrow> (Inr response, st'))"
  by (simp add: catchRequestErrors_def)

lemma fullDiscoveryWithErrors_not_missing:
  "fst (fullDiscoveryWithErrors parse (Some d) t st) \<noteq> Inl (ICD MissingDataError)"
  by (auto simp: fullDiscoveryWithErrors_cases admit_not_ICD split: option.splits prod.splits sum.splits bool.splits)

lemma fullDiscoveryWithErrors_success:
  "fst (fullDiscoveryWithErrors parse data t st) = Inr r \<Longrightarrow> result r = SUCCESS"
  by (auto simp: fullDiscoveryWithErrors_cases makeResponse_def
           split: option.splits prod.splits sum.splits bool.splits if_splits)

lemma incrementalDiscoveryWithErrors_not_missing:
  "fst (incrementalDiscoveryWithErrors parse (Some d) t st) \<noteq> Inl (ICD MissingDataError)"
  by (auto simp: incrementalDiscoveryWithErrors_cases admit_not_ICD split: option.splits prod.splits sum.splits bool.splits)

lemma incrementalDiscoveryWithErrors_success:
  "fst (incrementalDiscoveryWithErrors parse data t st) = Inr r \<Longrightarrow> result r = SUCCESS"
  by (auto simp: incrementalDiscoveryWithErrors_cases makeResponse_def
           split: option.splits prod.splits sum.splits bool.splits if_splits)

lemma registerUserWithErrors_not_missing:
  "fst (registerUserWithErrors parse (Some d) t st) \<noteq> Inl (ICD MissingDataError)"
  by (auto simp: registerUserWithErrors_def getDataFromRequest_body split: option.splits)

lemma registerUserWithErrors_success:
  "fst (registerUserWithErrors parse data t st) = Inr r \<Longrightarrow> result r = SUCCESS"
  by (auto simp: registerUserWithErrors_def makeResponse_def split: sum.splits prod.splits)

lemma deleteUserWithErrors_not_missing:
  "fst (deleteUserWithErrors parse (Some d) t st) \<noteq> Inl (ICD MissingDataError)"
  by (auto simp: deleteUserWithErrors_def checkAuthentication_def getDataFromRequest_body
           split: option.splits)

lemma deleteUserWithErrors_success:
  "fst (deleteUserWithErrors parse data t st) = Inr r \<Longrightarrow> result r = SUCCESS"
  by (auto simp: deleteUserWithErrors_def makeResponse_def split: sum.splits prod.splits)

lemma catchRequestErrors_not_missing:
  assumes "\<And>s. fst (callback s) \<noteq> Inl (ICD MissingDataError)"
    and "\<And>s r. fst (callback s) = Inr r \<Longrightarrow> result r = SUCCESS"
  shows "(case fst (catchRequestErrors callback st t) of
            Inl e \<Rightarrow> True
          | Inr r \<Rightarrow> result r \<noteq> REQUEST_DATA_MISSING)"
proof -
  obtain out st' where c: "callback (updateUserSets st t) = (out, st')"
    by (cases "callback (updateUserSets st t)")
  have 1: "out \<noteq> Inl (ICD MissingDataError)"
    using assms(1)[of "updateUserSets st t"] c by simp
  have 2: "out = Inr r \<Longrightarrow> result r = SUCCESS" for r
    using assms(2)[of "updateUserSets st t" r] c by simp
  show ?thesis
  proof (cases out)
    case (Inl e)
    show ?thesis
    proof (cases e)
      case (ICD x)
      then have "x \<noteq> MissingDataError" using 1 Inl by simp
      then have "error_result x \<noteq> REQUEST_DATA_MISSING" by (cases x) simp_all
      then show ?thesis using c Inl ICD
        by (simp add: catchRequestErrors_def makeErrorResponse_def)
    qed (use c Inl in \<open>simp_all add: catchRequestErrors_def\<close>)
  next
    case (Inr r)
    then show ?thesis using 2[of r] c by (simp add: catchRequestErrors_def)
  qed
qed

text \<open>
  Claim C2. The claim is that each of the four handlers answers a request with an empty
  body with \<^verbatim>\<open>REQUEST_DATA_MISSING\<close>. \<^verbatim>\<open>_getDataFromRequest\<close> raises
  \<^verbatim>\<open>MissingDataError\<close> only when the body is \<^verbatim>\<open>None\<close>; an empty byte string goes to
  the decoder. So, whatever the decoder does, no handler answers an empty body with
  \<^verbatim>\<open>REQUEST_DATA_MISSING\<close>; with a decoder that reads the empty string as the
  request with empty fields, registration answers \<^verbatim>\<open>SUCCESS\<close>.
\<close>

theorem empty_body_not_reported_missing:
  "getDataFromRequest parse (Some []) \<noteq> Inl (ICD MissingDataError) \<and>
   (case fst (registerUser st parse (Some []) t0 t1) of
      Inl e \<Rightarrow> True | Inr r \<Rightarrow> result r \<noteq> REQUEST_DATA_MISSING) \<and>
   (case fst (deleteUser st parse (Some []) t0 t1) of
      Inl e \<Rightarrow> True | Inr r \<Rightarrow> result r \<noteq> REQUEST_DATA_MISSING) \<and>
   (case fst (fullDiscovery st parse (Some []) t0 t1) of
      Inl e \<Rightarrow> True | Inr r \<Rightarrow> result r \<noteq> REQUEST_DATA_MISSING) \<and>
   (case fst (incrementalDiscovery st parse (Some []) t0 t1) of
      Inl e \<Rightarrow> True | Inr r \<Rightarrow> result r \<noteq> REQUEST_DATA_MISSING) \<and>
   fst (registerUser st (\<lambda>d. if d = [] then Some \<lparr>user = [], auth_token = [], identifiers = []\<rparr>
                               else parse d) (Some []) t0 t1) = Inr (makeResponse [] [])"
proof -
  have a: "getDataFromRequest parse (Some []) \<noteq> Inl (ICD MissingDataError)"
    by (simp add: getDataFromRequest_body split: option.splits)
  have b: "(case fst (registerUser st parse (Some []) t0 t1) of
      Inl e \<Rightarrow> True | Inr r \<Rightarrow> result r \<noteq> REQUEST_DATA_MISSING)"
    unfolding registerUser_def
    by (rule catchRequestErrors_not_missing)
       (rule registerUserWithErrors_not_missing, rule registerUserWithErrors_success)
  have c: "(case fst (deleteUser st parse (Some []) t0 t1) of
      Inl e \<Rightarrow> True | Inr r \<Rightarrow> result r \<noteq> REQUEST_DATA_MISSING)"
    unfolding deleteUser_def
    by (rule catchRequestErrors_not_missing)
       (rule deleteUserWithErrors_not_missing, rule deleteUserWithErrors_success)
  have d: "(case fst (fullDiscovery st parse (Some []) t0 t1) of
      Inl e \<Rightarrow> True | Inr r \<Rightarrow> result r \<noteq> REQUEST_DATA_MISSING)"
    unfolding fullDiscovery_def
    by (rule catchRequestErrors_not_missing)
       (rule fullDiscoveryWithErrors_not_missing, rule fullDiscoveryWithErrors_success)
  have e: "(case fst (incrementalDiscovery st parse (Some []) t0 t1) of
      Inl e \<Rightarrow> True | Inr r \<Rightarrow> result r \<noteq> REQUEST_DATA_MISSING)"
    unfolding incrementalDiscovery_def
    by (rule catchRequestErrors_not_missing)
       (rule incrementalDiscoveryWithErrors_not_missing,
        rule incrementalDiscoveryWithErrors_success)
  have f: "fst (registerUser st (\<lambda>d. if d = [] then Some \<lparr>user = [], auth_token = [], identifiers = []\<rparr>
                               else parse d) (Some []) t0 t1) = Inr (makeResponse [] [])"
    by (simp add: registerUser_def catchRequestErrors_def registerUserWithErrors_def
          getDataFromRequest_body)
  show ?thesis using a b c d e f by blast
qed

subsection \<open>Discovery handlers: authentication and rate limit\<close>

lemma configured_buckets:
  assumes "configured st"
  shows "leak_rate (s1_buckets st) = Fin (3335999723978145 / 2 ^ 57)"
    and "max_count (s1_buckets st) = 20000"
    and "drain_period (s1_buckets st) = Fin 864000"
    and "leak_rate (s2_buckets st) = Fin (8339999309945363 / 2 ^ 55)"
    and "max_count (s2_buckets st) = 20000"
    and "drain_period (s2_buckets st) = Fin 86400"
proof -
  have 1: "(s1_buckets st)\<lparr>b_users := fmempty\<rparr> =
             \<lparr>b_users = fmempty, leak_rate = Fin (3335999723978145 / 2 ^ 57),
              max_count = 20000, drain_period = Fin 864000\<rparr>"
    using assms
    by (simp add: configured_def Bucket_init_def float_defs max_contacts_def s2_delta_def
          rnd_facts)
  have 2: "(s2_buckets st)\<lparr>b_users := fmempty\<rparr> =
             \<lparr>b_users = fmempty, leak_rate = Fin (8339999309945363 / 2 ^ 55),
              max_count = 20000, drain_period = Fin 86400\<rparr>"
    using assms
    by (simp add: configured_def Bucket_init_def float_defs max_contacts_def s2_period_def
          rnd_facts)
  show "leak_rate (s1_buckets st) = Fin (3335999723978145 / 2 ^ 57)"
    using arg_cong[OF 1, of leak_rate] by simp
  show "max_count (s1_buckets st) = 20000"
    using arg_cong[OF 1, of max_count] by simp
  show "drain_period (s1_buckets st) = Fin 864000"
    using arg_cong[OF 1, of drain_period] by simp
  show "leak_rate (s2_buckets st) = Fin (8339999309945363 / 2 ^ 55)"
    using arg_cong[OF 2, of leak_rate] by simp
  show "max_count (s2_buckets st) = 20000"
    using arg_cong[OF 2, of max_count] by simp
  show "drain_period (s2_buckets st) = Fin 86400"
    using arg_cong[OF 2, of drain_period] by simp
qed

lemma service_buckets_sound:
  assumes "configured st"
  shows "bucket_sound (s1_buckets st)" "bucket_sound (s2_buckets st)"
  by (simp_all add: bucket_sound_def configured_buckets[OF assms] float_defs rnd_facts)

lemma initial_state_configured: "\<exists>st. initial_state = Inr st \<and> configured st"
  by (simp add: initial_state_def Bucket_init_def float_defs configured_def
        ExpiringUserSet_init_def max_contacts_def s2_delta_def s2_period_def rnd_facts)








lemma ex_state_configured: "configured ex_state"
  by (simp add: configured_def ex_state_def max_contacts_def s2_delta_def s2_period_def
        Bucket_init_def float_defs rnd_facts)


subsection \<open>Discovery handlers: what they change\<close>

lemma update_lookup:
  "fmlookup (e_users (snd (ExpiringUserSet_update s T))) k =
     (case fmlookup (e_users s) k of
        None \<Rightarrow> None
      | Some dl \<Rightarrow> if dl \<le> T then None else Some dl)"
  by (auto simp: ExpiringUserSet_update_def Let_def split: option.splits)

lemma same_bucket [simp]: "st\<lparr>s1_buckets := s1_buckets st\<rparr> = st"
  "st\<lparr>s2_buckets := s2_buckets st\<rparr> = st"
  by simp_all

lemma fullDiscoveryWithErrors_frame:
  "\<exists>b'. snd (fullDiscoveryWithErrors parse data t st) = st\<lparr>s1_buckets := b'\<rparr> \<and>
        (b' \<noteq> s1_buckets st \<longrightarrow>
           (\<exists>r. fst (fullDiscoveryWithErrors parse data t st) = Inr r \<and> result r = SUCCESS))"
proof (cases "\<exists>d req. data = Some d \<and> parse d = Some req \<and>
                UserSet_isValidUser (s1 st) (user req) (auth_token req) \<and>
                \<not> int (length (identifiers req)) > max_contacts \<and> identifiers req \<noteq> []")
  case False
  then have "snd (fullDiscoveryWithErrors parse data t st) = st\<lparr>s1_buckets := s1_buckets st\<rparr>"
    by (auto simp: fullDiscoveryWithErrors_cases split: option.splits)
  then show ?thesis by blast
next
  case True
  then obtain d req where h: "data = Some d" "parse d = Some req"
    "UserSet_isValidUser (s1 st) (user req) (auth_token req)"
    "\<not> int (length (identifiers req)) > max_contacts" "identifiers req \<noteq> []"
    by blast
  obtain r b' where a: "Bucket_userCanSyncAmount (s1_buckets st) (user req)
                      (int (length (identifiers req))) (Fin t) = (r, b')"
    by (cases "Bucket_userCanSyncAmount (s1_buckets st) (user req)
                      (int (length (identifiers req))) (Fin t)")
  have same: "r \<noteq> Inr True \<Longrightarrow> b' = s1_buckets st"
    using admit_false_frame[of "s1_buckets st" "user req" "int (length (identifiers req))" "Fin t"] a
    by simp
  have s: "snd (fullDiscoveryWithErrors parse data t st) = st\<lparr>s1_buckets := b'\<rparr>"
    using h a by (simp add: fullDiscoveryWithErrors_cases split: sum.splits bool.splits)
  have "\<exists>x. fst (fullDiscoveryWithErrors parse data t st) = Inr x \<and> result x = SUCCESS"
    if "r = Inr True"
    using h a that by (simp add: fullDiscoveryWithErrors_cases makeResponse_def)
  then show ?thesis using s same by blast
qed

lemma incrementalDiscoveryWithErrors_frame:
  "\<exists>b'. snd (incrementalDiscoveryWithErrors parse data t st) = st\<lparr>s2_buckets := b'\<rparr> \<and>
        (b' \<noteq> s2_buckets st \<longrightarrow>
           (\<exists>r. fst (incrementalDiscoveryWithErrors parse data t st) = Inr r \<and>
                result r = SUCCESS))"
proof (cases "\<exists>d req. data = Some d \<and> parse d = Some req \<and>
                UserSet_isValidUser (s1 st) (user req) (auth_token req) \<and>
                \<not> int (length (identifiers req)) > max_contacts \<and> identifiers req \<noteq> []")
  case False
  then have "snd (incrementalDiscoveryWithErrors parse data t st) =
               st\<lparr>s2_buckets := s2_buckets st\<rparr>"
    by (auto simp: incrementalDiscoveryWithErrors_cases split: option.splits)
  then show ?thesis by blast
next
  case True
  then obtain d req where h: "data = Some d" "parse d = Some req"
    "UserSet_isValidUser (s1 st) (user req) (auth_token req)"
    "\<not> int (length (identifiers req)) > max_contacts" "identifiers req \<noteq> []"
    by blast
  obtain r b' where a: "Bucket_userCanSyncAmount (s2_buckets st) (user req)
                      (int (length (identifiers req))) (Fin t) = (r, b')"
    by (cases "Bucket_userCanSyncAmount (s2_buckets st) (user req)
                      (int (length (identifiers req))) (Fin t)")
  have same: "r \<noteq> Inr True \<Longrightarrow> b' = s2_buckets st"
    using admit_false_frame[of "s2_buckets st" "user req" "int (length (identifiers req))" "Fin t"] a
    by simp
  have s: "snd (incrementalDiscoveryWithErrors parse data t st) = st\<lparr>s2_buckets := b'\<rparr>"
    using h a by (simp add: incrementalDiscoveryWithErrors_cases split: sum.splits bool.splits)
  have "\<exists>x. fst (incrementalDiscoveryWithErrors parse data t st) = Inr x \<and> result x = SUCCESS"
    if "r = Inr True"
    using h a that by (simp add: incrementalDiscoveryWithErrors_cases makeResponse_def)
  then show ?thesis using s same by blast
qed

lemma catchRequestErrors_frame:
  "snd (catchRequestErrors callback st t) = snd (callback (updateUserSets st t))"
  "fst (callback (updateUserSets st t)) = Inr r \<Longrightarrow>
   fst (catchRequestErrors callback st t) = Inr r"
  by (auto simp: catchRequestErrors_def split: prod.splits sum.splits exn.splits)

text \<open>
  Claim C10. Whatever the request and its outcome, a full or incremental discovery leaves
  the user set as it was and leaves each delta set as the sweep at the handler's first
  clock reading makes it: the entries with a deadline at most that time are gone, every
  other entry keeps its deadline. The bucket of the other kind of discovery is unchanged,
  and the handler's own bucket differs from the one before only when the reply is
  \<^verbatim>\<open>SUCCESS\<close>.
\<close>

theorem discovery_frame:
  "s1 (snd (fullDiscovery st parse data t0 t1)) = s1 st \<and>
   s2_added (snd (fullDiscovery st parse data t0 t1)) =
     snd (ExpiringUserSet_update (s2_added st) (time_int t0)) \<and>
   s2_removed (snd (fullDiscovery st parse data t0 t1)) =
     snd (ExpiringUserSet_update (s2_removed st) (time_int t0)) \<and>
   s2_buckets (snd (fullDiscovery st parse data t0 t1)) = s2_buckets st \<and>
   (s1_buckets (snd (fullDiscovery st parse data t0 t1)) \<noteq> s1_buckets st \<longrightarrow>
      (\<exists>r. fst (fullDiscovery st parse data t0 t1) = Inr r \<and> result r = SUCCESS)) \<and>
   s1 (snd (incrementalDiscovery st parse data t0 t1)) = s1 st \<and>
   s2_added (snd (incrementalDiscovery st parse data t0 t1)) =
     snd (ExpiringUserSet_update (s2_added st) (time_int t0)) \<and>
   s2_removed (snd (incrementalDiscovery st parse data t0 t1)) =
     snd (ExpiringUserSet_update (s2_removed st) (time_int t0)) \<and>
   s1_buckets (snd (incrementalDiscovery st parse data t0 t1)) = s1_buckets st \<and>
   (s2_buckets (snd (incrementalDiscovery st parse data t0 t1)) \<noteq> s2_buckets st \<longrightarrow>
      (\<exists>r. fst (incrementalDiscovery st parse data t0 t1) = Inr r \<and> result r = SUCCESS)) \<and>
   (\<forall>k. fmlookup (e_users (snd (ExpiringUserSet_update (s2_added st) (time_int t0)))) k =
          (case fmlookup (e_users (s2_added st)) k of
             None \<Rightarrow> None
           | Some dl \<Rightarrow> if dl \<le> time_int t0 then None else Some dl)) \<and>
   (\<forall>k. fmlookup (e_users (snd (ExpiringUserSet_update (s2_removed st) (time_int t0)))) k =
          (case fmlookup (e_users (s2_removed st)) k of
             None \<Rightarrow> None
           | Some dl \<Rightarrow> if dl \<le> time_int t0 then None else Some dl))"
proof -
  let ?st0 = "updateUserSets st t0"
  obtain b1 where f: "snd (fullDiscoveryWithErrors parse data t1 ?st0) = ?st0\<lparr>s1_buckets := b1\<rparr>"
    and fs: "b1 \<noteq> s1_buckets ?st0 \<longrightarrow>
       (\<exists>r. fst (fullDiscoveryWithErrors parse data t1 ?st0) = Inr r \<and> result r = SUCCESS)"
    using fullDiscoveryWithErrors_frame[of parse data t1 ?st0] by blast
  obtain b2 where i: "snd (incrementalDiscoveryWithErrors parse data t1 ?st0) =
                        ?st0\<lparr>s2_buckets := b2\<rparr>"
    and is2: "b2 \<noteq> s2_buckets ?st0 \<longrightarrow>
       (\<exists>r. fst (incrementalDiscoveryWithErrors parse data t1 ?st0) = Inr r \<and>
            result r = SUCCESS)"
    using incrementalDiscoveryWithErrors_frame[of parse data t1 ?st0] by blast
  have F: "snd (fullDiscovery st parse data t0 t1) = ?st0\<lparr>s1_buckets := b1\<rparr>"
    by (simp add: fullDiscovery_def catchRequestErrors_frame(1) f)
  have I: "snd (incrementalDiscovery st parse data t0 t1) = ?st0\<lparr>s2_buckets := b2\<rparr>"
    by (simp add: incrementalDiscovery_def catchRequestErrors_frame(1) i)
  have Fs: "s1_buckets (snd (fullDiscovery st parse data t0 t1)) \<noteq> s1_buckets st \<longrightarrow>
      (\<exists>r. fst (fullDiscovery st parse data t0 t1) = Inr r \<and> result r = SUCCESS)"
  proof
    assume "s1_buckets (snd (fullDiscovery st parse data t0 t1)) \<noteq> s1_buckets st"
    then have "b1 \<noteq> s1_buckets ?st0" by (simp add: F updateUserSets_frame)
    with fs obtain r where "fst (fullDiscoveryWithErrors parse data t1 ?st0) = Inr r"
      and "result r = SUCCESS" by blast
    then show "\<exists>r. fst (fullDiscovery st parse data t0 t1) = Inr r \<and> result r = SUCCESS"
      using catchRequestErrors_frame(2)[of "fullDiscoveryWithErrors parse data t1" st t0 r]
      by (simp add: fullDiscovery_def)
  qed
  have Is: "s2_buckets (snd (incrementalDiscovery st parse data t0 t1)) \<noteq> s2_buckets st \<longrightarrow>
      (\<exists>r. fst (incrementalDiscovery st parse data t0 t1) = Inr r \<and> result r = SUCCESS)"
  proof
    assume "s2_buckets (snd (incrementalDiscovery st parse data t0 t1)) \<noteq> s2_buckets st"
    then have "b2 \<noteq> s2_buckets ?st0" by (simp add: I updateUserSets_frame)
    with is2 obtain r where "fst (incrementalDiscoveryWithErrors parse data t1 ?st0) = Inr r"
      and "result r = SUCCESS" by blast
    then show "\<exists>r. fst (incrementalDiscovery st parse data t0 t1) = Inr r \<and> result r = SUCCESS"
      using catchRequestErrors_frame(2)[of "incrementalDiscoveryWithErrors parse data t1" st t0 r]
      by (simp add: incrementalDiscovery_def)
  qed
  have Ff: "s1 (snd (fullDiscovery st parse data t0 t1)) = s1 st"
    "s2_added (snd (fullDiscovery st parse data t0 t1)) =
       snd (ExpiringUserSet_update (s2_added st) (time_int t0))"
    "s2_removed (snd (fullDiscovery st parse data t0 t1)) =
       snd (ExpiringUserSet_update (s2_removed st) (time_int t0))"
    "s2_buckets (snd (fullDiscovery st parse data t0 t1)) = s2_buckets st"
    by (simp_all add: F updateUserSets_frame)
  have If: "s1 (snd (incrementalDiscovery st parse data t0 t1)) = s1 st"
    "s2_added (snd (incrementalDiscovery st parse data t0 t1)) =
       snd (ExpiringUserSet_update (s2_added st) (time_int t0))"
    "s2_removed (snd (incrementalDiscovery st parse data t0 t1)) =
       snd (ExpiringUserSet_update (s2_removed st) (time_int t0))"
    "s1_buckets (snd (incrementalDiscovery st parse data t0 t1)) = s1_buckets st"
    by (simp_all add: I updateUserSets_frame)
  show ?thesis
    using Ff If Fs Is update_lookup[of "s2_added st" "time_int t0"]
      update_lookup[of "s2_removed st" "time_int t0"]
    by (intro conjI allI) simp_all
qed


theorem discovery_frame_witness:
  "s1_buckets (snd (fullDiscovery ex_state (ex_parse ex_request) (Some ''body'') 100 100)) \<noteq>
     s1_buckets ex_state \<and>
   (\<exists>r. fst (fullDiscovery ex_state (ex_parse ex_request) (Some ''body'') 100 100) = Inr r \<and>
        result r = SUCCESS) \<and>
   s1 (snd (fullDiscovery ex_state (ex_parse ex_request) (Some ''body'') 100 100)) = s1 ex_state \<and>
   fmlookup (e_users (s2_removed
      (snd (fullDiscovery ex_state (ex_parse ex_request) (Some ''body'') 100 100)))) ''bob'' = None"
proof -
  let ?out = "fullDiscovery ex_state (ex_parse ex_request) (Some ''body'') 100 100"
  have v: "UserSet_isValidUser (s1 ex_state) ''alice'' ''secret''"
    by (simp add: UserSet_isValidUser_def ex_state_def)
  have a: "Bucket_userCanSyncAmount (s1_buckets ex_state) ''alice'' 2 (Fin 100) =
             (Inr True, (s1_buckets ex_state)\<lparr>b_users :=
                fmupd ''alice'' (Fin (6558366957358285 / 2 ^ 45)) fmempty\<rparr>)"
    by (simp add: Bucket_userCanSyncAmount_def float_defs ex_state_def rnd_facts)
  have "snd ?out = (updateUserSets ex_state 100)
          \<lparr>s1_buckets := (s1_buckets ex_state)\<lparr>b_users :=
             fmupd ''alice'' (Fin (6558366957358285 / 2 ^ 45)) fmempty\<rparr>\<rparr>"
    by (simp add: fullDiscovery_def catchRequestErrors_def fullDiscoveryWithErrors_cases
          updateUserSets_frame ex_parse_def ex_request_def v a max_contacts_def)
  then have l: "fmlookup (b_users (s1_buckets (snd ?out))) ''alice'' =
                  Some (Fin (6558366957358285 / 2 ^ 45))"
    by simp
  have n: "fmlookup (b_users (s1_buckets ex_state)) ''alice'' = None"
    by (simp add: ex_state_def)
  have changed: "s1_buckets (snd ?out) \<noteq> s1_buckets ex_state"
    using l n by auto
  note t = discovery_frame[of ex_state "ex_parse ex_request" "Some ''body''" 100 100]
  have ok: "\<exists>r. fst ?out = Inr r \<and> result r = SUCCESS"
    using t changed by blast
  have s: "s1 (snd ?out) = s1 ex_state"
    using t by blast
  have "s2_removed (snd ?out) = snd (ExpiringUserSet_update (s2_removed ex_state) (time_int 100))"
    using t by blast
  moreover have "fmlookup (e_users (snd (ExpiringUserSet_update (s2_removed ex_state)
                    (time_int 100)))) ''bob'' =
          (case fmlookup (e_users (s2_removed ex_state)) ''bob'' of
             None \<Rightarrow> None
           | Some dl \<Rightarrow> if dl \<le> time_int 100 then None else Some dl)"
    using t by blast
  ultimately have b: "fmlookup (e_users (s2_removed (snd ?out))) ''bob'' = None"
    by (simp add: ex_state_def time_int_def)
  show ?thesis using changed ok s b by blast
qed

subsection \<open>Discovery handlers: the empty contact list\<close>

text \<open>
  Claim C9. A decoded full or incremental discovery request of an authenticated user with
  an empty list of identifiers is answered with \<^verbatim>\<open>SUCCESS\<close> and two empty lists, and
  both buckets are afterwards what they were before, whatever they held: the handler
  returns before it reaches \<^verbatim>\<open>userCanSyncAmount\<close>.
\<close>

theorem empty_contacts_short_circuit:
  assumes req: "parse d = Some req" and empty: "identifiers req = []"
    and valid: "UserSet_isValidUser (s1 st) (user req) (auth_token req)"
  shows "fst (fullDiscovery st parse (Some d) t0 t1) =
           Inr \<lparr>result = SUCCESS, added_users = [], removed_users = []\<rparr> \<and>
         s1_buckets (snd (fullDiscovery st parse (Some d) t0 t1)) = s1_buckets st \<and>
         s2_buckets (snd (fullDiscovery st parse (Some d) t0 t1)) = s2_buckets st \<and>
         fst (incrementalDiscovery st parse (Some d) t0 t1) =
           Inr \<lparr>result = SUCCESS, added_users = [], removed_users = []\<rparr> \<and>
         s1_buckets (snd (incrementalDiscovery st parse (Some d) t0 t1)) = s1_buckets st \<and>
         s2_buckets (snd (incrementalDiscovery st parse (Some d) t0 t1)) = s2_buckets st"
proof -
  have small: "\<not> int (length (identifiers req)) > max_contacts"
    using empty by (simp add: max_contacts_def)
  have f: "fullDiscovery st parse (Some d) t0 t1 =
             (Inr (makeResponse [] []), updateUserSets st t0)"
    using req empty valid small
    by (simp add: fullDiscovery_def catchRequestErrors_def fullDiscoveryWithErrors_cases
          updateUserSets_frame)
  have i: "incrementalDiscovery st parse (Some d) t0 t1 =
             (Inr (makeResponse [] []), updateUserSets st t0)"
    using req empty valid small
    by (simp add: incrementalDiscovery_def catchRequestErrors_def
          incrementalDiscoveryWithErrors_cases updateUserSets_frame)
  show ?thesis
    by (simp add: f i makeResponse_def updateUserSets_frame)
qed

theorem empty_contacts_short_circuit_witness:
  "ex_parse ex_request_empty ''body'' = Some ex_request_empty \<and>
   identifiers ex_request_empty = [] \<and>
   UserSet_isValidUser (s1 ex_state) (user ex_request_empty) (auth_token ex_request_empty) \<and>
   fst (incrementalDiscovery ex_state (ex_parse ex_request_empty) (Some ''body'') 100 100) =
     Inr \<lparr>result = SUCCESS, added_users = [], removed_users = []\<rparr> \<and>
   s2_buckets (snd (incrementalDiscovery ex_state (ex_parse ex_request_empty) (Some ''body'')
                      100 100)) = s2_buckets ex_state"
proof -
  have p: "ex_parse ex_request_empty ''body'' = Some ex_request_empty"
    by (simp add: ex_parse_def)
  have e: "identifiers ex_request_empty = []"
    by (simp add: ex_request_empty_def)
  have v: "UserSet_isValidUser (s1 ex_state) (user ex_request_empty)
             (auth_token ex_request_empty)"
    by (simp add: UserSet_isValidUser_def ex_state_def ex_request_empty_def)
  note t = empty_contacts_short_circuit
             [where parse = "ex_parse ex_request_empty" and d = "''body''"
                and req = ex_request_empty and st = ex_state and ?t0.0 = 100 and ?t1.0 = 100,
              OF p e v]
  show ?thesis using p e v t by blast
qed

subsection \<open>Registration followed by removal\<close>

lemma register_unregister_s1:
  "s_users (s1 (removeUser (addNewUser st u tok t1) u t2)) = fmdrop u (s_users (s1 st))"
  by (simp add: removeUser_def addNewUser_def UserSet_addUser_def UserSet_removeUser_def
        fmdrop_fmupd_same)

text \<open>
  When the user is registered before the pair of calls, the user set does not return to
  its prior state: in the example state \<^verbatim>\<open>alice\<close> is registered, and after
  \<^verbatim>\<open>addNewUser\<close> and \<^verbatim>\<open>removeUser\<close> she is not.
\<close>

theorem register_unregister_counterexample:
  "s1 (removeUser (addNewUser ex_state ''alice'' ''secret'' 100) ''alice'' 200) \<noteq> s1 ex_state"
proof
  assume "s1 (removeUser (addNewUser ex_state ''alice'' ''secret'' 100) ''alice'' 200) = s1 ex_state"
  then have "fmlookup (s_users (s1 (removeUser (addNewUser ex_state ''alice'' ''secret'' 100)
                ''alice'' 200))) ''alice'' = fmlookup (s_users (s1 ex_state)) ''alice''"
    by simp
  then show False
    by (simp add: register_unregister_s1) (simp add: ex_state_def)
qed

text \<open>
  Claim C4, amended. For every state, user and token, \<^verbatim>\<open>addNewUser(u, t)\<close> followed by
  \<^verbatim>\<open>removeUser(u)\<close> leaves the user set equal to the prior one without the entry of
  \<open>u\<close>, which is the prior user set when \<open>u\<close> was not registered before. After
  the registration \<open>(u, t)\<close> authenticates, so the removal is admitted. Afterwards the set
  of removed users holds \<open>u\<close> with the deadline of the removal's clock reading plus the
  set's expiration time (\<^verbatim>\<open>s2_delta\<close> in the configured service), and the set of
  added users does not hold \<open>u\<close>.
\<close>

theorem register_unregister_round_trip:
  "(\<forall>k. fmlookup (s_users (s1 (removeUser (addNewUser st u tok t1) u t2))) k =
         (if k = u then None else fmlookup (s_users (s1 st)) k)) \<and>
   (\<not> UserSet_userExists (s1 st) u \<longrightarrow>
      s1 (removeUser (addNewUser st u tok t1) u t2) = s1 st) \<and>
   UserSet_isValidUser (s1 (addNewUser st u tok t1)) u tok \<and>
   fmlookup (e_users (s2_removed (removeUser (addNewUser st u tok t1) u t2))) u =
     Some (time_int t2 + expiration_time (s2_removed st)) \<and>
   (configured st \<longrightarrow>
      fmlookup (e_users (s2_removed (removeUser (addNewUser st u tok t1) u t2))) u =
        Some (time_int t2 + s2_delta)) \<and>
   fmlookup (e_users (s2_added (removeUser (addNewUser st u tok t1) u t2))) u = None"
proof -
  let ?st' = "removeUser (addNewUser st u tok t1) u t2"
  have a: "fmlookup (s_users (s1 ?st')) k = (if k = u then None else fmlookup (s_users (s1 st)) k)"
    for k
    by (simp add: register_unregister_s1)
  have b: "s1 ?st' = s1 st" if "\<not> UserSet_userExists (s1 st) u"
  proof -
    have "fmdrop u (s_users (s1 st)) = s_users (s1 st)"
      using that by (intro fmap_ext) (simp add: UserSet_userExists_def)
    then have "s_users (s1 ?st') = s_users (s1 st)"
      by (simp add: register_unregister_s1)
    then show ?thesis by simp
  qed
  have c: "UserSet_isValidUser (s1 (addNewUser st u tok t1)) u tok"
    by (simp add: addNewUser_def UserSet_addUser_def UserSet_isValidUser_def)
  have e: "expiration_time (ExpiringUserSet_removeUser s x) = expiration_time s" for s x
    by (simp add: ExpiringUserSet_removeUser_def)
  have d: "fmlookup (e_users (s2_removed ?st')) u =
             Some (time_int t2 + expiration_time (s2_removed st))"
    by (simp add: removeUser_def addNewUser_def ExpiringUserSet_addUser_def e)
  have f: "fmlookup (e_users (s2_added ?st')) u = None"
    by (simp add: removeUser_def addNewUser_def ExpiringUserSet_addUser_def
          ExpiringUserSet_removeUser_def)
  have g: "configured st \<Longrightarrow> fmlookup (e_users (s2_removed ?st')) u = Some (time_int t2 + s2_delta)"
    using d by (simp add: configured_def)
  show ?thesis using a b c d f g by blast
qed

theorem register_unregister_round_trip_witness:
  "\<not> UserSet_userExists (s1 ex_state) ''carol'' \<and> configured ex_state \<and>
   s1 (removeUser (addNewUser ex_state ''carol'' ''token'' 100) ''carol'' 200) = s1 ex_state \<and>
   fmlookup (e_users (s2_removed (removeUser (addNewUser ex_state ''carol'' ''token'' 100)
      ''carol'' 200))) ''carol'' = Some 864200"
proof -
  have n: "\<not> UserSet_userExists (s1 ex_state) ''carol''"
    by (simp add: UserSet_userExists_def ex_state_def)
  note t = register_unregister_round_trip[of ex_state "''carol''" "''token''" 100 200]
  have a: "s1 (removeUser (addNewUser ex_state ''carol'' ''token'' 100) ''carol'' 200) = s1 ex_state"
    using t n by blast
  have "fmlookup (e_users (s2_removed (removeUser (addNewUser ex_state ''carol'' ''token'' 100)
      ''carol'' 200))) ''carol'' = Some (time_int 200 + s2_delta)"
    using t ex_state_configured by blast
  then have b: "fmlookup (e_users (s2_removed (removeUser (addNewUser ex_state ''carol''
      ''token'' 100) ''carol'' 200))) ''carol'' = Some 864200"
    by (simp add: time_int_def s2_delta_def)
  show ?thesis using n ex_state_configured a b by blast
qed

end
